theory Spec2Isabelle
  imports Complex_Main "HOL-Library.Word" "HOL-Library.Signed_Division"
    "HOL-Library.Finite_Map"
begin

section \<open>Outcomes of Go code\<close>

text \<open>
  A Go function either returns or panics. The result type of every modelled function
  that can dereference a nil pointer, call a method on a nil interface, write to a nil
  map or divide by zero is \<open>panic + 'a\<close>, with \<open>Inl\<close> the panic. A panic carries
  no state: nothing is said of what a call that panics leaves behind.
\<close>

datatype panic = NilDereference | NilMapWrite | DivideByZero

section \<open>Error classifiers (package error\_classifiers)\<close>

subsection \<open>Error values\<close>

text \<open>
  A value of the interface type \<open>error\<close> is the nil interface or a dynamic type with a
  value. The classifiers tell apart seven dynamic types; every other dynamic type
  is \<open>OtherError\<close>, tagged with a description. \<open>*net.OpError\<close> is the only form of
  \<open>net.OpError\<close> that is an \<open>error\<close> (its methods have pointer receivers); the pointer
  may be nil (\<open>OpErrorPtr None\<close>) and the pointee has the two fields the classifiers
  read. The type switches do not look below the dynamic type, so the TLS and x509 errors
  carry no payload.
\<close>

datatype go_error =
    NilError
  | RecordHeaderError
  | RecordHeaderErrorPtr
  | OpErrorPtr "op_error option"
  | HostnameError
  | HostnameErrorPtr
  | UnknownAuthorityError
  | UnknownAuthorityErrorPtr
  | OtherError string
and op_error = OpError (Op: string) (Err: go_error)

text \<open>
  \<open>e.Error()\<close> on an interface value: a nil interface has no method to call and the
  call panics; otherwise the method of the dynamic type runs. Those methods live outside
  the package, so the dispatch is a parameter \<open>errorMethod\<close>, which may itself panic.
\<close>

definition call_Error :: "(go_error \<Rightarrow> panic + string) \<Rightarrow> go_error \<Rightarrow> panic + string" where
  "call_Error errorMethod e = (case e of NilError \<Rightarrow> Inl NilDereference | _ \<Rightarrow> errorMethod e)"

text \<open>The type assertion \<open>ne, ok := err.(*net.OpError)\<close>.\<close>

definition assert_OpErrorPtr :: "go_error \<Rightarrow> op_error option \<times> bool" where
  "assert_OpErrorPtr err = (case err of OpErrorPtr ne \<Rightarrow> (ne, True) | _ \<Rightarrow> (None, False))"

subsection \<open>The seven classifiers\<close>

definition AttemptedTLSWithNonTLSBackend :: "go_error \<Rightarrow> panic + bool" where
  "AttemptedTLSWithNonTLSBackend err =
     (case err of
        RecordHeaderError \<Rightarrow> Inr True
      | RecordHeaderErrorPtr \<Rightarrow> Inr True
      | _ \<Rightarrow> Inr False)"

definition Dial :: "go_error \<Rightarrow> panic + bool" where
  "Dial err =
     (case assert_OpErrorPtr err of
        (ne, ok) \<Rightarrow>
          if \<not> ok then Inr False
          else (case ne of
                  None \<Rightarrow> Inl NilDereference
                | Some e \<Rightarrow> Inr (Op e = ''dial'')))"

definition ConnectionResetOnRead :: "(go_error \<Rightarrow> panic + string) \<Rightarrow> go_error \<Rightarrow> panic + bool" where
  "ConnectionResetOnRead errorMethod err =
     (case assert_OpErrorPtr err of
        (ne, ok) \<Rightarrow>
          if \<not> ok then Inr False
          else (case ne of
                  None \<Rightarrow> Inl NilDereference
                | Some e \<Rightarrow>
                    if Op e \<noteq> ''read'' then Inr False
                    else (case call_Error errorMethod (Err e) of
                            Inl p \<Rightarrow> Inl p
                          | Inr s \<Rightarrow> Inr (s = ''read: connection reset by peer''))))"

definition RemoteFailedCertCheck :: "(go_error \<Rightarrow> panic + string) \<Rightarrow> go_error \<Rightarrow> panic + bool" where
  "RemoteFailedCertCheck errorMethod err =
     (case assert_OpErrorPtr err of
        (ne, ok) \<Rightarrow>
          if \<not> ok then Inr False
          else (case ne of
                  None \<Rightarrow> Inl NilDereference
                | Some e \<Rightarrow>
                    if Op e \<noteq> ''remote error'' then Inr False
                    else (case call_Error errorMethod (Err e) of
                            Inl p \<Rightarrow> Inl p
                          | Inr s \<Rightarrow> Inr (s = ''tls: bad certificate''))))"

definition RemoteHandshakeFailure :: "(go_error \<Rightarrow> panic + string) \<Rightarrow> go_error \<Rightarrow> panic + bool" where
  "RemoteHandshakeFailure errorMethod err =
     (case assert_OpErrorPtr err of
        (ne, ok) \<Rightarrow>
          if \<not> ok then Inr False
          else (case ne of
                  None \<Rightarrow> Inl NilDereference
                | Some e \<Rightarrow>
                    if Op e \<noteq> ''remote error'' then Inr False
                    else (case call_Error errorMethod (Err e) of
                            Inl p \<Rightarrow> Inl p
                          | Inr s \<Rightarrow> Inr (s = ''tls: handshake failure''))))"

definition HostnameMismatch :: "go_error \<Rightarrow> panic + bool" where
  "HostnameMismatch err =
     (case err of
        HostnameError \<Rightarrow> Inr True
      | HostnameErrorPtr \<Rightarrow> Inr True
      | _ \<Rightarrow> Inr False)"

definition UntrustedCert :: "go_error \<Rightarrow> panic + bool" where
  "UntrustedCert err =
     (case err of
        UnknownAuthorityError \<Rightarrow> Inr True
      | UnknownAuthorityErrorPtr \<Rightarrow> Inr True
      | _ \<Rightarrow> Inr False)"

text \<open>\<open>func (f ClassifierFunc) Classify(err error) bool { return f(err) }\<close>\<close>

definition Classify :: "(go_error \<Rightarrow> panic + bool) \<Rightarrow> go_error \<Rightarrow> panic + bool" where
  "Classify f err = f err"

text \<open>
  A dispatch table for the examples: \<open>OtherError s\<close> stands for \<open>errors.New(s)\<close>, whose
  \<open>Error()\<close> returns \<open>s\<close>; a nil \<open>*net.OpError\<close> prints as \<open><nil>\<close>; the text of the
  remaining values is not looked at by any example.
\<close>

definition errorsNew_Error :: "go_error \<Rightarrow> panic + string" where
  "errorsNew_Error e =
     (case e of
        OtherError s \<Rightarrow> Inr s
      | OpErrorPtr None \<Rightarrow> Inr ''<nil>''
      | _ \<Rightarrow> Inr [])"

section \<open>Metrics (package router, varz.go)\<close>

subsection \<open>Integers, pointers and the go-metrics library\<close>

text \<open>
  \<open>int64\<close> is a 64-bit two's-complement word; Go's \<open>int\<close> is taken at its 64-bit
  width. \<open>+\<close> wraps around. Go's \<open>/\<close> on signed integers truncates towards zero and
  wraps around for the one quotient that does not fit; it panics when the divisor is zero,
  which the model tests before a division by a variable.
\<close>

type_synonym int64 = "64 word"
type_synonym go_int = "64 word"

definition go_div :: "64 word \<Rightarrow> 64 word \<Rightarrow> 64 word" where
  "go_div a b = word_of_int (sint a sdiv sint b)"

text \<open>
  The counters, meters and histograms come from the library go-metrics. A
  \<open>metrics.Counter\<close> is its count: \<open>Inc(n)\<close> adds \<open>n\<close> and \<open>Count()\<close> reads it. The meter and
  the histogram are kept abstract (types \<open>'m\<close> and \<open>'h\<close>); their operations are the
  fields of a record that every function calling into the library takes as its first
  argument. The reads (\<open>Rate1\<close>, \<open>Rate5\<close>, \<open>Rate15\<close>, \<open>Percentiles\<close>) do not change the
  object they read. \<open>Percentiles(ps)\<close> returns one score for each requested rank, so
  it is given by the score of a single rank.
\<close>

record ('m, 'h) go_metrics =
  NewMeter :: 'm
  Mark :: "int64 \<Rightarrow> 'm \<Rightarrow> 'm"
  Rate1 :: "'m \<Rightarrow> real"
  Rate5 :: "'m \<Rightarrow> real"
  Rate15 :: "'m \<Rightarrow> real"
  NewHistogram :: 'h
  Update :: "int64 \<Rightarrow> 'h \<Rightarrow> 'h"
  Percentile :: "real \<Rightarrow> 'h \<Rightarrow> real"

definition Inc :: "int64 \<Rightarrow> int64 \<Rightarrow> int64" where
  "Inc n c = c + n"

definition Count :: "int64 \<Rightarrow> int64" where
  "Count c = c"

definition Percentiles :: "('m, 'h) go_metrics \<Rightarrow> real list \<Rightarrow> 'h \<Rightarrow> real list" where
  "Percentiles lib ps h = map (\<lambda>p. Percentile lib p h) ps"

text \<open>
  A \<open>*HttpMetric\<close> is nil or the address of a cell in the store. The store is the list
  of the cells allocated so far; \<open>NewHttpMetric\<close> appends to it, so a new cell never
  shares its address with an old one. An address beyond the store does not arise in Go;
  dereferencing one is treated like dereferencing nil.
\<close>

datatype ptr = Null | Addr nat

record ('m, 'h) HttpMetric =
  Requests :: int64
  Rate :: 'm
  Responses2xx :: int64
  Responses3xx :: int64
  Responses4xx :: int64
  Responses5xx :: int64
  ResponsesXxx :: int64
  Latency :: 'h

type_synonym ('m, 'h) store = "('m, 'h) HttpMetric list"

definition deref :: "('m, 'h) store \<Rightarrow> ptr \<Rightarrow> ('m, 'h) HttpMetric option" where
  "deref s p = (case p of Null \<Rightarrow> None | Addr a \<Rightarrow> if a < length s then Some (s ! a) else None)"

text \<open>A method with receiver \<open>x *HttpMetric\<close> whose body \<open>f\<close> updates the pointee.\<close>

definition call_on :: "ptr \<Rightarrow> (('m, 'h) HttpMetric \<Rightarrow> ('m, 'h) HttpMetric) \<Rightarrow> ('m, 'h) store
    \<Rightarrow> panic + ('m, 'h) store" where
  "call_on p f s =
     (case p of
        Null \<Rightarrow> Inl NilDereference
      | Addr a \<Rightarrow> if a < length s then Inr (s[a := f (s ! a)]) else Inl NilDereference)"

text \<open>Sequencing: a panic ends the function.\<close>

definition and_then :: "panic + 'a \<Rightarrow> ('a \<Rightarrow> panic + 'b) \<Rightarrow> panic + 'b" where
  "and_then r f = (case r of Inl p \<Rightarrow> Inl p | Inr v \<Rightarrow> f v)"

subsection \<open>The JSON documents\<close>

text \<open>
  The struct \<open>httpMetric\<close> and the marshalled \<open>varz\<close>, field by field under their JSON
  names. A nil pointer and a nil map marshal to \<open>null\<close> (\<open>None\<close>).
\<close>

record httpMetric =
  json_requests :: int64
  json_rate :: "real list"
  json_responses_2xx :: int64
  json_responses_3xx :: int64
  json_responses_4xx :: int64
  json_responses_5xx :: int64
  json_responses_xxx :: int64
  json_latency :: "(string, real) fmap"

record topAppsEntry =
  ApplicationId :: string
  RequestsPerSecond :: int64
  RequestsPerMinute :: int64

record varz_json =
  json_all :: "httpMetric option"
  json_component :: "(string, httpMetric option) fmap option"
  json_framework :: "(string, httpMetric option) fmap option"
  json_runtime :: "(string, httpMetric option) fmap option"
  json_urls :: go_int
  json_droplets :: go_int
  json_bad_requests :: go_int
  json_requests_per_sec :: real
  json_top10_app_requests :: "topAppsEntry list"

subsection \<open>HttpMetric\<close>

definition NewHttpMetric_literal :: "('m, 'h) go_metrics \<Rightarrow> ('m, 'h) HttpMetric" where
  "NewHttpMetric_literal lib =
     \<lparr>Requests = 0, Rate = NewMeter lib,
      Responses2xx = 0, Responses3xx = 0, Responses4xx = 0, Responses5xx = 0,
      ResponsesXxx = 0, Latency = NewHistogram lib\<rparr>"

definition NewHttpMetric :: "('m, 'h) go_metrics \<Rightarrow> ('m, 'h) store \<Rightarrow> ptr \<times> ('m, 'h) store" where
  "NewHttpMetric lib s = (Addr (length s), s @ [NewHttpMetric_literal lib])"

definition HttpMetric_MarshalJSON :: "('m, 'h) go_metrics \<Rightarrow> ('m, 'h) HttpMetric \<Rightarrow> httpMetric" where
  "HttpMetric_MarshalJSON lib x =
     (let z = Percentiles lib [0.5, 0.75, 0.99] (Latency x) in
      \<lparr>json_requests = Count (Requests x),
       json_rate = [Rate1 lib (Rate x), Rate5 lib (Rate x), Rate15 lib (Rate x)],
       json_responses_2xx = Count (Responses2xx x),
       json_responses_3xx = Count (Responses3xx x),
       json_responses_4xx = Count (Responses4xx x),
       json_responses_5xx = Count (Responses5xx x),
       json_responses_xxx = Count (ResponsesXxx x),
       json_latency = fmupd ''99'' (z ! 2) (fmupd ''75'' (z ! 1) (fmupd ''50'' (z ! 0) fmempty))\<rparr>)"

definition HttpMetric_CaptureRequest :: "('m, 'h) go_metrics \<Rightarrow> ('m, 'h) HttpMetric \<Rightarrow> ('m, 'h) HttpMetric" where
  "HttpMetric_CaptureRequest lib x = x\<lparr>Requests := Inc 1 (Requests x), Rate := Mark lib 1 (Rate x)\<rparr>"

text \<open>
  \<open>http.Response\<close> and \<open>time.Duration\<close>, as far as \<open>CaptureResponse\<close> reads them: the
  status code, and the duration as its count of nanoseconds.
\<close>

record Response =
  StatusCode :: go_int

type_synonym Duration = int64

definition Nanoseconds :: "Duration \<Rightarrow> int64" where
  "Nanoseconds d = d"

definition HttpMetric_CaptureResponse :: "('m, 'h) go_metrics \<Rightarrow> Response option \<Rightarrow> Duration
    \<Rightarrow> ('m, 'h) HttpMetric \<Rightarrow> ('m, 'h) HttpMetric" where
  "HttpMetric_CaptureResponse lib y z x =
     (let s = (case y of None \<Rightarrow> 0 | Some r \<Rightarrow> go_div (StatusCode r) 100);
          x1 = (if s = 2 then x\<lparr>Responses2xx := Inc 1 (Responses2xx x)\<rparr>
                else if s = 3 then x\<lparr>Responses3xx := Inc 1 (Responses3xx x)\<rparr>
                else if s = 4 then x\<lparr>Responses4xx := Inc 1 (Responses4xx x)\<rparr>
                else if s = 5 then x\<lparr>Responses5xx := Inc 1 (Responses5xx x)\<rparr>
                else x\<lparr>ResponsesXxx := Inc 1 (ResponsesXxx x)\<rparr>)
      in x1\<lparr>Latency := Update lib (Nanoseconds z) (Latency x1)\<rparr>)"

subsection \<open>TaggedHttpMetric\<close>

text \<open>
  \<open>map[string]*HttpMetric\<close>: the nil map (\<open>None\<close>), which reads as empty and panics on a
  write, or a finite map. The methods change the map in place; the model returns the map
  after the call, with the store.
\<close>

type_synonym TaggedHttpMetric = "(string, ptr) fmap option"

definition NewTaggedHttpMetric :: TaggedHttpMetric where
  "NewTaggedHttpMetric = Some fmempty"

text \<open>\<open>x[t]\<close>: the zero value, nil, for a key that is not in the map.\<close>

definition index_map :: "TaggedHttpMetric \<Rightarrow> string \<Rightarrow> ptr" where
  "index_map x t =
     (case x of
        None \<Rightarrow> Null
      | Some m \<Rightarrow> (case fmlookup m t of None \<Rightarrow> Null | Some p \<Rightarrow> p))"

definition TaggedHttpMetric_httpMetric :: "('m, 'h) go_metrics \<Rightarrow> string \<Rightarrow> TaggedHttpMetric
    \<Rightarrow> ('m, 'h) store \<Rightarrow> panic + (ptr \<times> TaggedHttpMetric \<times> ('m, 'h) store)" where
  "TaggedHttpMetric_httpMetric lib t x s =
     (let y = index_map x t in
      if y = Null then
        (case NewHttpMetric lib s of
           (y', s') \<Rightarrow>
             (case x of
                None \<Rightarrow> Inl NilMapWrite
              | Some m \<Rightarrow> Inr (y', Some (fmupd t y' m), s')))
      else Inr (y, x, s))"

definition TaggedHttpMetric_CaptureRequest :: "('m, 'h) go_metrics \<Rightarrow> string \<Rightarrow> TaggedHttpMetric
    \<Rightarrow> ('m, 'h) store \<Rightarrow> panic + (TaggedHttpMetric \<times> ('m, 'h) store)" where
  "TaggedHttpMetric_CaptureRequest lib t x s =
     and_then (TaggedHttpMetric_httpMetric lib t x s)
       (\<lambda>(y, x', s'). and_then (call_on y (HttpMetric_CaptureRequest lib) s')
          (\<lambda>s''. Inr (x', s'')))"

definition TaggedHttpMetric_CaptureResponse :: "('m, 'h) go_metrics \<Rightarrow> string \<Rightarrow> Response option
    \<Rightarrow> Duration \<Rightarrow> TaggedHttpMetric \<Rightarrow> ('m, 'h) store \<Rightarrow> panic + (TaggedHttpMetric \<times> ('m, 'h) store)" where
  "TaggedHttpMetric_CaptureResponse lib t y z x s =
     and_then (TaggedHttpMetric_httpMetric lib t x s)
       (\<lambda>(c, x', s'). and_then (call_on c (HttpMetric_CaptureResponse lib y z) s')
          (\<lambda>s''. Inr (x', s'')))"

subsection \<open>The registry\<close>

text \<open>
  Modelled from the spec: the backend registry is not among the sources; the spec has it
  expose \<open>NumUris()\<close>, \<open>NumBackends()\<close> and a \<open>TopApps\<close> ranking source. The record holds
  what the two methods return and, for the ranking source, the clients ranked over the
  window that starts at a given instant (most active first), each with its identifier
  and its count of requests in the window.
\<close>

record TopAppsTopEntry =
  Entry_ApplicationId :: string
  Entry_Requests :: int64

record Registry =
  NumUris :: go_int
  NumBackends :: go_int
  Registry_TopApps :: "int \<Rightarrow> TopAppsTopEntry list"

text \<open>
  Modelled from the spec: \<open>TopSince(t, n)\<close> is not among the sources; the spec has it
  return the top \<open>n\<close> ranked clients over the window since \<open>t\<close>, that is at most \<open>n\<close>
  entries, the first of the ranking.
\<close>

definition TopSince :: "(int \<Rightarrow> TopAppsTopEntry list) \<Rightarrow> int \<Rightarrow> go_int \<Rightarrow> TopAppsTopEntry list" where
  "TopSince ranking t n = take (nat (sint n)) (ranking t)"

subsection \<open>Varz\<close>

text \<open>
  An instant is its count of nanoseconds; \<open>time.Now()\<close> is an argument \<open>now\<close> of the
  functions that read the clock. The constant \<open>stats.TopAppsEntryLifetime\<close> is not among
  the sources: the functions that use it take \<open>lifetime\<close>, the value of
  \<open>int64(stats.TopAppsEntryLifetime.Seconds())\<close>, as an argument. The mutex is left out
  of the state: the model runs one method at a time. The request arguments, which no
  method reads, are left out as well.
\<close>

definition Minute :: int where
  "Minute = 60 * 1000000000"

record varz =
  All_ptr :: ptr
  Tags_Component :: TaggedHttpMetric
  Tags_Framework :: TaggedHttpMetric
  Tags_Runtime :: TaggedHttpMetric
  Urls :: go_int
  Droplets :: go_int
  BadRequests :: go_int
  RequestsPerSec :: real
  TopApps :: "topAppsEntry list"

record Varz = varz +
  Registry_ptr :: "Registry option"

record Backend =
  Tags :: "(string, string) fmap"

definition NewVarz :: "('m, 'h) go_metrics \<Rightarrow> ('m, 'h) store \<Rightarrow> Varz \<times> ('m, 'h) store" where
  "NewVarz lib s =
     (case NewHttpMetric lib s of
        (p, s') \<Rightarrow>
          (\<lparr>All_ptr = p,
            Tags_Component = Some fmempty,
            Tags_Framework = Some fmempty,
            Tags_Runtime = Some fmempty,
            Urls = 0, Droplets = 0, BadRequests = 0, RequestsPerSec = 0, TopApps = [],
            Registry_ptr = None\<rparr>, s'))"

text \<open>
  \<open>json.Marshal\<close> of a \<open>*HttpMetric\<close> writes \<open>null\<close> for nil and calls \<open>MarshalJSON\<close>
  otherwise; of a map, \<open>null\<close> for the nil map and one member for each key otherwise.
  The only failure is a pointer that is not in the store.
\<close>

definition marshal_ptr :: "('m, 'h) go_metrics \<Rightarrow> ('m, 'h) store \<Rightarrow> ptr \<Rightarrow> panic + httpMetric option" where
  "marshal_ptr lib s p =
     (case p of
        Null \<Rightarrow> Inr None
      | Addr a \<Rightarrow>
          if a < length s then Inr (Some (HttpMetric_MarshalJSON lib (s ! a)))
          else Inl NilDereference)"

definition marshal_TaggedHttpMetric :: "('m, 'h) go_metrics \<Rightarrow> ('m, 'h) store \<Rightarrow> TaggedHttpMetric
    \<Rightarrow> panic + (string, httpMetric option) fmap option" where
  "marshal_TaggedHttpMetric lib s x =
     (case x of
        None \<Rightarrow> Inr None
      | Some m \<Rightarrow>
          if fmpred (\<lambda>t p. \<not> isl (marshal_ptr lib s p)) m
          then Inr (Some (fmmap (\<lambda>p. projr (marshal_ptr lib s p)) m))
          else Inl NilDereference)"

text \<open>\<open>json.Marshal(x.varz)\<close>.\<close>

definition marshal_varz :: "('m, 'h) go_metrics \<Rightarrow> ('m, 'h) store \<Rightarrow> Varz \<Rightarrow> panic + varz_json" where
  "marshal_varz lib s x =
     and_then (marshal_ptr lib s (All_ptr x)) (\<lambda>a.
     and_then (marshal_TaggedHttpMetric lib s (Tags_Component x)) (\<lambda>c.
     and_then (marshal_TaggedHttpMetric lib s (Tags_Framework x)) (\<lambda>f.
     and_then (marshal_TaggedHttpMetric lib s (Tags_Runtime x)) (\<lambda>r.
       Inr \<lparr>json_all = a, json_component = c, json_framework = f, json_runtime = r,
            json_urls = Urls x, json_droplets = Droplets x,
            json_bad_requests = BadRequests x,
            json_requests_per_sec = RequestsPerSec x,
            json_top10_app_requests = TopApps x\<rparr>))))"

text \<open>
  The loop of \<open>updateTop\<close> over the entries \<open>y\<close>, appending to \<open>x.varz.TopApps\<close>. The
  division panics when the divisor is zero.
\<close>

fun updateTop_loop :: "int64 \<Rightarrow> TopAppsTopEntry list \<Rightarrow> topAppsEntry list \<Rightarrow> panic + topAppsEntry list" where
  "updateTop_loop lifetime [] acc = Inr acc"
| "updateTop_loop lifetime (z # zs) acc =
     (if lifetime = 0 then Inl DivideByZero
      else updateTop_loop lifetime zs
             (acc @ [\<lparr>ApplicationId = Entry_ApplicationId z,
                      RequestsPerSecond = go_div (Entry_Requests z) lifetime,
                      RequestsPerMinute = Entry_Requests z\<rparr>]))"

text \<open>
  \<open>updateTop\<close> and \<open>MarshalJSON\<close> reach the registry through \<open>x.Registry\<close>, which
  \<open>NewVarz\<close> leaves nil, and \<open>MarshalJSON\<close> reads the meter of \<open>x.varz.All\<close>: both
  panic on nil.
\<close>

definition Varz_updateTop :: "int \<Rightarrow> int64 \<Rightarrow> Varz \<Rightarrow> panic + Varz" where
  "Varz_updateTop now lifetime x =
     (case Registry_ptr x of
        None \<Rightarrow> Inl NilDereference
      | Some r \<Rightarrow>
          (let t = now + (- 1) * Minute;
               y = TopSince (Registry_TopApps r) t 10
           in and_then (updateTop_loop lifetime y []) (\<lambda>tops. Inr (x\<lparr>TopApps := tops\<rparr>))))"

definition Varz_MarshalJSON :: "('m, 'h) go_metrics \<Rightarrow> int \<Rightarrow> int64 \<Rightarrow> Varz \<Rightarrow> ('m, 'h) store
    \<Rightarrow> panic + (varz_json \<times> Varz \<times> ('m, 'h) store)" where
  "Varz_MarshalJSON lib now lifetime x s =
     (case Registry_ptr x of
        None \<Rightarrow> Inl NilDereference
      | Some r \<Rightarrow>
          (let x1 = x\<lparr>Urls := NumUris r\<rparr>;
               x2 = x1\<lparr>Droplets := NumBackends r\<rparr>
           in case deref s (All_ptr x2) of
                None \<Rightarrow> Inl NilDereference
              | Some a \<Rightarrow>
                  (let x3 = x2\<lparr>RequestsPerSec := Rate1 lib (Rate a)\<rparr>
                   in and_then (Varz_updateTop now lifetime x3) (\<lambda>x4.
                      and_then (marshal_varz lib s x4) (\<lambda>b. Inr (b, x4, s))))))"

definition Varz_CaptureBadRequest :: "Varz \<Rightarrow> Varz" where
  "Varz_CaptureBadRequest x = x\<lparr>BadRequests := BadRequests x + 1\<rparr>"

definition Varz_CaptureBackendRequest :: "('m, 'h) go_metrics \<Rightarrow> Backend \<Rightarrow> Varz \<Rightarrow> ('m, 'h) store
    \<Rightarrow> panic + (Varz \<times> ('m, 'h) store)" where
  "Varz_CaptureBackendRequest lib b x s =
     and_then
       (case fmlookup (Tags b) ''component'' of
          None \<Rightarrow> Inr (Tags_Component x, s)
        | Some t \<Rightarrow> TaggedHttpMetric_CaptureRequest lib t (Tags_Component x) s)
       (\<lambda>(c, s1).
     and_then
       (case fmlookup (Tags b) ''framework'' of
          None \<Rightarrow> Inr (Tags_Framework x, s1)
        | Some t \<Rightarrow> TaggedHttpMetric_CaptureRequest lib t (Tags_Framework x) s1)
       (\<lambda>(f, s2).
     and_then
       (case fmlookup (Tags b) ''runtime'' of
          None \<Rightarrow> Inr (Tags_Runtime x, s2)
        | Some t \<Rightarrow> TaggedHttpMetric_CaptureRequest lib t (Tags_Runtime x) s2)
       (\<lambda>(r, s3).
     and_then (call_on (All_ptr x) (HttpMetric_CaptureRequest lib) s3)
       (\<lambda>s4. Inr (x\<lparr>Tags_Component := c, Tags_Framework := f, Tags_Runtime := r\<rparr>, s4)))))"

definition Varz_CaptureBackendResponse :: "('m, 'h) go_metrics \<Rightarrow> Backend \<Rightarrow> Response option
    \<Rightarrow> Duration \<Rightarrow> Varz \<Rightarrow> ('m, 'h) store \<Rightarrow> panic + (Varz \<times> ('m, 'h) store)" where
  "Varz_CaptureBackendResponse lib b res d x s =
     and_then
       (case fmlookup (Tags b) ''component'' of
          None \<Rightarrow> Inr (Tags_Component x, s)
        | Some t \<Rightarrow> TaggedHttpMetric_CaptureResponse lib t res d (Tags_Component x) s)
       (\<lambda>(c, s1).
     and_then
       (case fmlookup (Tags b) ''framework'' of
          None \<Rightarrow> Inr (Tags_Framework x, s1)
        | Some t \<Rightarrow> TaggedHttpMetric_CaptureResponse lib t res d (Tags_Framework x) s1)
       (\<lambda>(f, s2).
     and_then
       (case fmlookup (Tags b) ''runtime'' of
          None \<Rightarrow> Inr (Tags_Runtime x, s2)
        | Some t \<Rightarrow> TaggedHttpMetric_CaptureResponse lib t res d (Tags_Runtime x) s2)
       (\<lambda>(r, s3).
     and_then (call_on (All_ptr x) (HttpMetric_CaptureResponse lib res d) s3)
       (\<lambda>s4. Inr (x\<lparr>Tags_Component := c, Tags_Framework := f, Tags_Runtime := r\<rparr>, s4)))))"

subsection \<open>Well-formed states\<close>

text \<open>
  The states that \<open>NewVarz\<close> and the capture methods build: the \<open>All\<close> cell and every
  cell of the three tag maps are in the store, the maps are not nil, no cell is
  shared between two tags, between two maps, or between a map and \<open>All\<close>.
\<close>

definition live :: "('m, 'h) store \<Rightarrow> ptr \<Rightarrow> bool" where
  "live s p = (case p of Null \<Rightarrow> False | Addr a \<Rightarrow> a < length s)"

definition cells_of :: "TaggedHttpMetric \<Rightarrow> ptr fset" where
  "cells_of x = (case x of None \<Rightarrow> {||} | Some m \<Rightarrow> fmran m)"

definition tagged_wf :: "TaggedHttpMetric \<Rightarrow> ('m, 'h) store \<Rightarrow> bool" where
  "tagged_wf x s =
     (case x of
        None \<Rightarrow> False
      | Some m \<Rightarrow> fmpred (\<lambda>t p. live s p \<and> fmpred (\<lambda>t' p'. p' = p \<longrightarrow> t' = t) m) m)"

definition varz_wf :: "Varz \<Rightarrow> ('m, 'h) store \<Rightarrow> bool" where
  "varz_wf x s \<longleftrightarrow>
     live s (All_ptr x)
     \<and> tagged_wf (Tags_Component x) s \<and> tagged_wf (Tags_Framework x) s \<and> tagged_wf (Tags_Runtime x) s
     \<and> All_ptr x |\<notin>| cells_of (Tags_Component x) |\<union>| cells_of (Tags_Framework x) |\<union>| cells_of (Tags_Runtime x)
     \<and> cells_of (Tags_Component x) |\<inter>| cells_of (Tags_Framework x) = {||}
     \<and> cells_of (Tags_Component x) |\<inter>| cells_of (Tags_Runtime x) = {||}
     \<and> cells_of (Tags_Framework x) |\<inter>| cells_of (Tags_Runtime x) = {||}"

text \<open>The request count that a tag map shows for a tag: zero while the tag has no cell.\<close>

definition tag_requests :: "('m, 'h) store \<Rightarrow> TaggedHttpMetric \<Rightarrow> string \<Rightarrow> int64" where
  "tag_requests s x t = (case deref s (index_map x t) of None \<Rightarrow> 0 | Some c \<Rightarrow> Count (Requests c))"

subsection \<open>The common shape of the two capture methods\<close>

text \<open>
  \<open>CaptureBackendRequest\<close> and \<open>CaptureBackendResponse\<close> differ only in the method they
  run on a cell. The definitions below are that shape with the method \<open>f\<close> left open;
  the properties of both methods are proved on it once.
\<close>

definition tagged_with :: "('m, 'h) go_metrics \<Rightarrow> string \<Rightarrow> (('m, 'h) HttpMetric \<Rightarrow> ('m, 'h) HttpMetric)
    \<Rightarrow> TaggedHttpMetric \<Rightarrow> ('m, 'h) store \<Rightarrow> panic + (TaggedHttpMetric \<times> ('m, 'h) store)" where
  "tagged_with lib t f x s =
     and_then (TaggedHttpMetric_httpMetric lib t x s)
       (\<lambda>(y, x', s'). and_then (call_on y f s') (\<lambda>s''. Inr (x', s'')))"

definition dimension_with :: "('m, 'h) go_metrics \<Rightarrow> string option
    \<Rightarrow> (('m, 'h) HttpMetric \<Rightarrow> ('m, 'h) HttpMetric)
    \<Rightarrow> TaggedHttpMetric \<Rightarrow> ('m, 'h) store \<Rightarrow> panic + (TaggedHttpMetric \<times> ('m, 'h) store)" where
  "dimension_with lib tg f x s =
     (case tg of None \<Rightarrow> Inr (x, s) | Some t \<Rightarrow> tagged_with lib t f x s)"

definition capture_with :: "('m, 'h) go_metrics \<Rightarrow> (('m, 'h) HttpMetric \<Rightarrow> ('m, 'h) HttpMetric)
    \<Rightarrow> Backend \<Rightarrow> Varz \<Rightarrow> ('m, 'h) store \<Rightarrow> panic + (Varz \<times> ('m, 'h) store)" where
  "capture_with lib f b x s =
     and_then (dimension_with lib (fmlookup (Tags b) ''component'') f (Tags_Component x) s)
       (\<lambda>(c, s1).
     and_then (dimension_with lib (fmlookup (Tags b) ''framework'') f (Tags_Framework x) s1)
       (\<lambda>(fw, s2).
     and_then (dimension_with lib (fmlookup (Tags b) ''runtime'') f (Tags_Runtime x) s2)
       (\<lambda>(r, s3).
     and_then (call_on (All_ptr x) f s3)
       (\<lambda>s4. Inr (x\<lparr>Tags_Component := c, Tags_Framework := fw, Tags_Runtime := r\<rparr>, s4)))))"

text \<open>
  What one step does to the rest of the state: the store only grows, the map keeps its
  cells, a cell new to the map is new to the store, and every cell of the old store
  outside the map is left as it was.
\<close>

definition dimension_frame :: "TaggedHttpMetric \<Rightarrow> ('m, 'h) store \<Rightarrow> TaggedHttpMetric
    \<Rightarrow> ('m, 'h) store \<Rightarrow> bool" where
  "dimension_frame x s x' s' \<longleftrightarrow>
     tagged_wf x' s' \<and> length s \<le> length s'
     \<and> cells_of x |\<subseteq>| cells_of x'
     \<and> (\<forall>q. q |\<in>| cells_of x' \<longrightarrow> q |\<in>| cells_of x \<or> \<not> live s q)
     \<and> (\<forall>q. live s q \<longrightarrow> q |\<notin>| cells_of x \<longrightarrow> deref s' q = deref s q)"

text \<open>
  What one step does to its own map: without a tag, nothing; with the tag \<open>t0\<close>, the
  cell of \<open>t0\<close> (a new one when the tag had none) has had \<open>f\<close> run on it once, and the
  cell of every other tag is the same cell, unchanged.
\<close>

definition dimension_effect :: "('m, 'h) go_metrics \<Rightarrow> (('m, 'h) HttpMetric \<Rightarrow> ('m, 'h) HttpMetric)
    \<Rightarrow> string option \<Rightarrow> TaggedHttpMetric \<Rightarrow> ('m, 'h) store \<Rightarrow> TaggedHttpMetric
    \<Rightarrow> ('m, 'h) store \<Rightarrow> bool" where
  "dimension_effect lib f tg x s x' s' \<longleftrightarrow>
     (case tg of
        None \<Rightarrow> x' = x \<and> (\<forall>q. q |\<in>| cells_of x \<longrightarrow> deref s' q = deref s q)
      | Some t0 \<Rightarrow>
          deref s' (index_map x' t0)
            = Some (f (case deref s (index_map x t0) of
                         None \<Rightarrow> NewHttpMetric_literal lib
                       | Some c \<Rightarrow> c))
          \<and> (index_map x t0 \<noteq> Null \<longrightarrow> x' = x)
          \<and> (\<forall>t. t \<noteq> t0 \<longrightarrow>
                index_map x' t = index_map x t
                \<and> deref s' (index_map x t) = deref s (index_map x t)))"

subsection \<open>Derived views used in the statements\<close>

text \<open>The six counters of a marshalled cell.\<close>

definition httpMetric_counters :: "httpMetric \<Rightarrow> int64 list" where
  "httpMetric_counters y =
     [json_requests y, json_responses_2xx y, json_responses_3xx y, json_responses_4xx y,
      json_responses_5xx y, json_responses_xxx y]"

text \<open>The entry that \<open>updateTop\<close> appends for a ranked client \<open>z\<close>.\<close>

definition top_entry :: "int64 \<Rightarrow> TopAppsTopEntry \<Rightarrow> topAppsEntry" where
  "top_entry lifetime z =
     \<lparr>ApplicationId = Entry_ApplicationId z,
      RequestsPerSecond = go_div (Entry_Requests z) lifetime,
      RequestsPerMinute = Entry_Requests z\<rparr>"

subsection \<open>The percentile query of the histogram\<close>

text \<open>
  Modelled from the spec: the histogram's percentile query is not among the sources. The
  spec has it sort the current sample set and interpolate at the requested rank, and
  has an empty reservoir yield a well-defined default, zero. The reservoir is the list of
  its current samples. With \<open>n\<close> samples sorted, the rank of \<open>p\<close> is \<open>p * (n + 1)\<close>,
  counted from 1: a rank below the first sample gives the first, a rank at or beyond the
  last gives the last, and a rank between two samples is interpolated linearly between
  them (\<open>score_at\<close>). The scores are reals where the library computes in \<open>float64\<close>.
\<close>

definition score_at :: "int list \<Rightarrow> real \<Rightarrow> real" where
  "score_at xs pos =
     (let n = length xs
      in if pos < 1 then real_of_int (xs ! 0)
         else if real n \<le> pos then real_of_int (xs ! (n - 1))
         else (let k = nat \<lfloor>pos\<rfloor>;
                   lower = real_of_int (xs ! (k - 1));
                   upper = real_of_int (xs ! k)
               in lower + (pos - real k) * (upper - lower)))"

definition Percentile_of_samples :: "real \<Rightarrow> int64 list \<Rightarrow> real" where
  "Percentile_of_samples p vs =
     (if vs = [] then 0
      else (let xs = sort (map sint vs)
            in score_at xs (p * real (length xs + 1))))"

text \<open>
  An instance of the library for the examples: a meter that counts its marks and reports
  no rate, and a histogram that keeps every sample and answers percentile queries as
  above.
\<close>

definition example_metrics :: "(int64, int64 list) go_metrics" where
  "example_metrics =
     \<lparr>NewMeter = 0, Mark = (\<lambda>n m. m + n),
      Rate1 = (\<lambda>m. 0), Rate5 = (\<lambda>m. 0), Rate15 = (\<lambda>m. 0),
      NewHistogram = [], Update = (\<lambda>v h. h @ [v]),
      Percentile = Percentile_of_samples\<rparr>"

section \<open>Properties of the classifiers\<close>


text \<open>
  Claim C1, as amended. The three type-switch classifiers are total over all error
  values and return true exactly on their own types. Each of the four classifiers built
  on \<open>*net.OpError\<close> returns without a panic, and returns true exactly on its own shape
  (so false on every error that does not match it, the nil error included), for every
  error value that is not a nil \<open>*net.OpError\<close> and, where the classifier goes on to read
  the underlying message (a \<open>*net.OpError\<close> whose \<open>Op\<close> is the classifier's tag), has a
  non-nil \<open>Err\<close> whose \<open>Error()\<close> returns.
\<close>

theorem classifiers_total_where_defined:
  fixes errorMethod :: "go_error \<Rightarrow> panic + string"
  shows "Classify AttemptedTLSWithNonTLSBackend err
           = Inr (err = RecordHeaderError \<or> err = RecordHeaderErrorPtr)
    \<and> Classify HostnameMismatch err = Inr (err = HostnameError \<or> err = HostnameErrorPtr)
    \<and> Classify UntrustedCert err
           = Inr (err = UnknownAuthorityError \<or> err = UnknownAuthorityErrorPtr)
    \<and> (err \<noteq> OpErrorPtr None \<longrightarrow>
          Classify Dial err = Inr (\<exists>e. err = OpErrorPtr (Some e) \<and> Op e = ''dial''))
    \<and> (err \<noteq> OpErrorPtr None
          \<and> (\<forall>e. err = OpErrorPtr (Some e) \<and> Op e = ''read''
                 \<longrightarrow> (\<exists>s. call_Error errorMethod (Err e) = Inr s)) \<longrightarrow>
          Classify (ConnectionResetOnRead errorMethod) err
            = Inr (\<exists>e. err = OpErrorPtr (Some e) \<and> Op e = ''read''
                     \<and> call_Error errorMethod (Err e) = Inr ''read: connection reset by peer''))
    \<and> (err \<noteq> OpErrorPtr None
          \<and> (\<forall>e. err = OpErrorPtr (Some e) \<and> Op e = ''remote error''
                 \<longrightarrow> (\<exists>s. call_Error errorMethod (Err e) = Inr s)) \<longrightarrow>
          Classify (RemoteFailedCertCheck errorMethod) err
            = Inr (\<exists>e. err = OpErrorPtr (Some e) \<and> Op e = ''remote error''
                     \<and> call_Error errorMethod (Err e) = Inr ''tls: bad certificate'')
          \<and> Classify (RemoteHandshakeFailure errorMethod) err
            = Inr (\<exists>e. err = OpErrorPtr (Some e) \<and> Op e = ''remote error''
                     \<and> call_Error errorMethod (Err e) = Inr ''tls: handshake failure''))"
proof (cases err)
  case (OpErrorPtr ne)
  show ?thesis
  proof (cases ne)
    case None
    with OpErrorPtr show ?thesis
      by (simp add: Classify_def AttemptedTLSWithNonTLSBackend_def HostnameMismatch_def
          UntrustedCert_def)
  next
    case (Some e)
    with OpErrorPtr show ?thesis
      by (auto simp: Classify_def AttemptedTLSWithNonTLSBackend_def HostnameMismatch_def
          UntrustedCert_def Dial_def ConnectionResetOnRead_def RemoteFailedCertCheck_def
          RemoteHandshakeFailure_def assert_OpErrorPtr_def)
  qed
qed (simp_all add: Classify_def AttemptedTLSWithNonTLSBackend_def HostnameMismatch_def
      UntrustedCert_def Dial_def ConnectionResetOnRead_def RemoteFailedCertCheck_def
      RemoteHandshakeFailure_def assert_OpErrorPtr_def)

theorem classifiers_total_where_defined_witness:
  "OtherError ''EOF'' \<noteq> OpErrorPtr None
   \<and> Classify AttemptedTLSWithNonTLSBackend (OtherError ''EOF'') = Inr False
   \<and> Classify HostnameMismatch (OtherError ''EOF'') = Inr False
   \<and> Classify UntrustedCert (OtherError ''EOF'') = Inr False
   \<and> Classify Dial (OtherError ''EOF'') = Inr False
   \<and> Classify (ConnectionResetOnRead errorsNew_Error) (OtherError ''EOF'') = Inr False
   \<and> Classify (RemoteFailedCertCheck errorsNew_Error) (OtherError ''EOF'') = Inr False
   \<and> Classify (RemoteHandshakeFailure errorsNew_Error) (OtherError ''EOF'') = Inr False
   \<and> Classify (ConnectionResetOnRead errorsNew_Error)
        (OpErrorPtr (Some (OpError ''read'' (OtherError ''EOF'')))) = Inr False
   \<and> Classify (ConnectionResetOnRead errorsNew_Error)
        (OpErrorPtr (Some (OpError ''read'' (OtherError ''read: connection reset by peer''))))
       = Inr True"
  using classifiers_total_where_defined [of "OtherError ''EOF''" errorsNew_Error]
    classifiers_total_where_defined
      [of "OpErrorPtr (Some (OpError ''read'' (OtherError ''EOF'')))" errorsNew_Error]
    classifiers_total_where_defined
      [of "OpErrorPtr (Some (OpError ''read'' (OtherError ''read: connection reset by peer'')))"
          errorsNew_Error]
  by (simp add: call_Error_def errorsNew_Error_def)

text \<open>
  The claim as stated fails: a nil \<open>*net.OpError\<close> held in the interface matches no
  classifier's shape, and \<open>Dial\<close> panics on \<open>ne.Op\<close>; a \<open>*net.OpError\<close> with \<open>Op\<close>
  \<open>read\<close> and a nil \<open>Err\<close> does not match the shape of \<open>ConnectionResetOnRead\<close>, which
  panics on \<open>ne.Err.Error()\<close>.
\<close>

theorem classifier_panics:
  "Classify Dial (OpErrorPtr None) = Inl NilDereference
   \<and> Classify (ConnectionResetOnRead errorsNew_Error) (OpErrorPtr (Some (OpError ''read'' NilError)))
       = Inl NilDereference"
  by (simp add: Classify_def Dial_def ConnectionResetOnRead_def assert_OpErrorPtr_def call_Error_def)


text \<open>
  Claim C4. The literal scenarios: a \<open>*net.OpError\<close> with \<open>Op\<close> \<open>read\<close> whose underlying
  error prints exactly \<open>read: connection reset by peer\<close> makes \<open>ConnectionResetOnRead\<close>
  return true and the six others false; a \<open>*net.OpError\<close> with \<open>Op\<close> \<open>dial\<close> makes only
  \<open>Dial\<close> return true; an x509 hostname error (value or pointer) makes only
  \<open>HostnameMismatch\<close> return true; the nil error and an error of an unrelated type make
  all seven return false.
\<close>

theorem classifier_scenarios:
  fixes errorMethod :: "go_error \<Rightarrow> panic + string"
  shows "(Op e = ''read'' \<and> Err e \<noteq> NilError
            \<and> errorMethod (Err e) = Inr ''read: connection reset by peer'' \<longrightarrow>
          Classify (ConnectionResetOnRead errorMethod) (OpErrorPtr (Some e)) = Inr True
          \<and> Classify AttemptedTLSWithNonTLSBackend (OpErrorPtr (Some e)) = Inr False
          \<and> Classify Dial (OpErrorPtr (Some e)) = Inr False
          \<and> Classify (RemoteFailedCertCheck errorMethod) (OpErrorPtr (Some e)) = Inr False
          \<and> Classify (RemoteHandshakeFailure errorMethod) (OpErrorPtr (Some e)) = Inr False
          \<and> Classify HostnameMismatch (OpErrorPtr (Some e)) = Inr False
          \<and> Classify UntrustedCert (OpErrorPtr (Some e)) = Inr False)
    \<and> (Op e = ''dial'' \<longrightarrow>
          Classify Dial (OpErrorPtr (Some e)) = Inr True
          \<and> Classify AttemptedTLSWithNonTLSBackend (OpErrorPtr (Some e)) = Inr False
          \<and> Classify (ConnectionResetOnRead errorMethod) (OpErrorPtr (Some e)) = Inr False
          \<and> Classify (RemoteFailedCertCheck errorMethod) (OpErrorPtr (Some e)) = Inr False
          \<and> Classify (RemoteHandshakeFailure errorMethod) (OpErrorPtr (Some e)) = Inr False
          \<and> Classify HostnameMismatch (OpErrorPtr (Some e)) = Inr False
          \<and> Classify UntrustedCert (OpErrorPtr (Some e)) = Inr False)
    \<and> (err \<in> {HostnameError, HostnameErrorPtr} \<longrightarrow>
          Classify HostnameMismatch err = Inr True
          \<and> Classify AttemptedTLSWithNonTLSBackend err = Inr False
          \<and> Classify Dial err = Inr False
          \<and> Classify (ConnectionResetOnRead errorMethod) err = Inr False
          \<and> Classify (RemoteFailedCertCheck errorMethod) err = Inr False
          \<and> Classify (RemoteHandshakeFailure errorMethod) err = Inr False
          \<and> Classify UntrustedCert err = Inr False)
    \<and> (err = NilError \<or> err = OtherError d \<longrightarrow>
          Classify AttemptedTLSWithNonTLSBackend err = Inr False
          \<and> Classify Dial err = Inr False
          \<and> Classify (ConnectionResetOnRead errorMethod) err = Inr False
          \<and> Classify (RemoteFailedCertCheck errorMethod) err = Inr False
          \<and> Classify (RemoteHandshakeFailure errorMethod) err = Inr False
          \<and> Classify HostnameMismatch err = Inr False
          \<and> Classify UntrustedCert err = Inr False)"
  by (cases "Err e")
     (auto simp: AttemptedTLSWithNonTLSBackend_def Dial_def ConnectionResetOnRead_def
        RemoteFailedCertCheck_def RemoteHandshakeFailure_def HostnameMismatch_def UntrustedCert_def
        assert_OpErrorPtr_def call_Error_def Classify_def)

theorem classifier_scenarios_witness:
  "Classify (ConnectionResetOnRead errorsNew_Error)
      (OpErrorPtr (Some (OpError ''read'' (OtherError ''read: connection reset by peer'')))) = Inr True
   \<and> Classify Dial
      (OpErrorPtr (Some (OpError ''read'' (OtherError ''read: connection reset by peer'')))) = Inr False
   \<and> Classify Dial (OpErrorPtr (Some (OpError ''dial'' NilError))) = Inr True
   \<and> Classify (ConnectionResetOnRead errorsNew_Error) (OpErrorPtr (Some (OpError ''dial'' NilError))) = Inr False
   \<and> Classify HostnameMismatch HostnameError = Inr True
   \<and> Classify UntrustedCert HostnameError = Inr False
   \<and> Classify Dial NilError = Inr False
   \<and> Classify (RemoteHandshakeFailure errorsNew_Error) (OtherError ''EOF'') = Inr False"
  using
    classifier_scenarios [of "OpError ''read'' (OtherError ''read: connection reset by peer'')"
      errorsNew_Error HostnameError "''EOF''"]
    classifier_scenarios [of "OpError ''dial'' NilError" errorsNew_Error NilError "''EOF''"]
    classifier_scenarios [of "OpError ''dial'' NilError" errorsNew_Error "OtherError ''EOF''" "''EOF''"]
  by (simp add: errorsNew_Error_def)

text \<open>
  Claim C10. The four classifiers built on \<open>net.OpError\<close> return true only for a
  \<open>*net.OpError\<close>, and return false for every error of another dynamic type; the
  TLS and x509 classifiers return true for the value form and for the pointer form of
  their types.
\<close>

theorem pointer_and_value_forms:
  fixes errorMethod :: "go_error \<Rightarrow> panic + string"
  shows "(Classify Dial err = Inr True
            \<or> Classify (ConnectionResetOnRead errorMethod) err = Inr True
            \<or> Classify (RemoteFailedCertCheck errorMethod) err = Inr True
            \<or> Classify (RemoteHandshakeFailure errorMethod) err = Inr True
          \<longrightarrow> (\<exists>e. err = OpErrorPtr (Some e)))
    \<and> ((\<forall>ne. err \<noteq> OpErrorPtr ne) \<longrightarrow>
          Classify Dial err = Inr False
          \<and> Classify (ConnectionResetOnRead errorMethod) err = Inr False
          \<and> Classify (RemoteFailedCertCheck errorMethod) err = Inr False
          \<and> Classify (RemoteHandshakeFailure errorMethod) err = Inr False)
    \<and> Classify AttemptedTLSWithNonTLSBackend RecordHeaderError = Inr True
    \<and> Classify AttemptedTLSWithNonTLSBackend RecordHeaderErrorPtr = Inr True
    \<and> Classify HostnameMismatch HostnameError = Inr True
    \<and> Classify HostnameMismatch HostnameErrorPtr = Inr True
    \<and> Classify UntrustedCert UnknownAuthorityError = Inr True
    \<and> Classify UntrustedCert UnknownAuthorityErrorPtr = Inr True"
  by (cases err)
     (auto simp: AttemptedTLSWithNonTLSBackend_def Dial_def ConnectionResetOnRead_def
        RemoteFailedCertCheck_def RemoteHandshakeFailure_def HostnameMismatch_def UntrustedCert_def
        assert_OpErrorPtr_def Classify_def split: option.splits if_splits sum.splits)

theorem pointer_and_value_forms_witness:
  "Classify Dial (OpErrorPtr (Some (OpError ''dial'' NilError))) = Inr True
   \<and> (\<exists>e. OpErrorPtr (Some (OpError ''dial'' NilError)) = OpErrorPtr (Some e))
   \<and> Classify Dial RecordHeaderError = Inr False
   \<and> Classify (ConnectionResetOnRead errorsNew_Error) RecordHeaderError = Inr False
   \<and> Classify (RemoteFailedCertCheck errorsNew_Error) RecordHeaderError = Inr False
   \<and> Classify (RemoteHandshakeFailure errorsNew_Error) RecordHeaderError = Inr False"
  using pointer_and_value_forms [of "OpErrorPtr (Some (OpError ''dial'' NilError))" errorsNew_Error]
    pointer_and_value_forms [of RecordHeaderError errorsNew_Error]
  by (simp add: Classify_def Dial_def assert_OpErrorPtr_def)

section \<open>Properties of the metrics\<close>

subsection \<open>Status classes\<close>

lemma sdiv_100_bounds:
  fixes n :: int
  assumes "- (2 ^ 63) \<le> n" "n < 2 ^ 63"
  shows "- (2 ^ 63) \<le> n sdiv 100 \<and> n sdiv 100 < 2 ^ 63"
proof (cases "0 \<le> n")
  case True
  then have "n sdiv 100 = n div 100" by (auto simp: signed_divide_int_def sgn_if)
  moreover have "0 \<le> n div 100" "n div 100 \<le> n" using True by simp_all
  ultimately show ?thesis using assms by linarith
next
  case False
  then have "n sdiv 100 = - ((- n) div 100)" by (auto simp: signed_divide_int_def sgn_if)
  moreover have "0 \<le> (- n) div 100" "(- n) div 100 \<le> - n" using False by simp_all
  ultimately show ?thesis using assms by linarith
qed

lemma sint_go_div_100: "sint (go_div sc 100) = sint sc sdiv 100"
proof -
  have "- (2 ^ 63) \<le> sint sc" "sint sc < 2 ^ 63"
    using sint_ge [of sc] sint_lt [of sc] by simp_all
  then have b: "- (2 ^ 63) \<le> sint sc sdiv 100 \<and> sint sc sdiv 100 < 2 ^ 63"
    by (rule sdiv_100_bounds)
  show ?thesis
    unfolding go_div_def using b
    by (simp add: sint_sbintrunc' signed_take_bit_int_eq_self)
qed


text \<open>
  The four status classes as ranges of the status code: the quotient is 2 exactly for
  the codes 200 to 299, and so on.
\<close>

lemma sdiv_100_class:
  fixes n :: int
  shows "n sdiv 100 = 2 \<longleftrightarrow> 200 \<le> n \<and> n \<le> 299"
    and "n sdiv 100 = 3 \<longleftrightarrow> 300 \<le> n \<and> n \<le> 399"
    and "n sdiv 100 = 4 \<longleftrightarrow> 400 \<le> n \<and> n \<le> 499"
    and "n sdiv 100 = 5 \<longleftrightarrow> 500 \<le> n \<and> n \<le> 599"
  by (auto simp: signed_divide_int_def sgn_if)

lemma go_div_100_class:
  "go_div sc 100 = 2 \<longleftrightarrow> sint sc sdiv 100 = 2"
  "go_div sc 100 = 3 \<longleftrightarrow> sint sc sdiv 100 = 3"
  "go_div sc 100 = 4 \<longleftrightarrow> sint sc sdiv 100 = 4"
  "go_div sc 100 = 5 \<longleftrightarrow> sint sc sdiv 100 = 5"
proof -
  have inj: "\<And>k. go_div sc 100 = k \<longleftrightarrow> sint (go_div sc 100) = sint k"
    by (auto intro: signed_word_eqI)
  show "go_div sc 100 = 2 \<longleftrightarrow> sint sc sdiv 100 = 2"
    "go_div sc 100 = 3 \<longleftrightarrow> sint sc sdiv 100 = 3"
    "go_div sc 100 = 4 \<longleftrightarrow> sint sc sdiv 100 = 4"
    "go_div sc 100 = 5 \<longleftrightarrow> sint sc sdiv 100 = 5"
    by (simp_all add: inj sint_go_div_100)
qed

text \<open>
  Claim C2. A call of \<open>CaptureResponse\<close> on a cell of the store returns and changes that
  cell only. When the response is not nil and its status code divided by 100 (truncating)
  is 2, 3, 4 or 5, the counter of that class is one higher and no other counter has
  changed; for a nil response and for every other status code exactly \<open>ResponsesXxx\<close> is
  one higher. In every case the duration, in nanoseconds, has gone to the histogram's
  \<open>Update\<close>.
\<close>

theorem CaptureResponse_buckets:
  assumes live: "deref s p = Some c"
  shows "\<exists>s' c'. call_on p (HttpMetric_CaptureResponse lib y z) s = Inr s'
      \<and> deref s' p = Some c'
      \<and> (\<forall>q. q \<noteq> p \<longrightarrow> deref s' q = deref s q)
      \<and> (\<forall>r. y = Some r \<and> sint (StatusCode r) sdiv 100 = 2 \<longrightarrow>
            c' = c\<lparr>Responses2xx := Responses2xx c + 1,
                   Latency := Update lib (Nanoseconds z) (Latency c)\<rparr>)
      \<and> (\<forall>r. y = Some r \<and> sint (StatusCode r) sdiv 100 = 3 \<longrightarrow>
            c' = c\<lparr>Responses3xx := Responses3xx c + 1,
                   Latency := Update lib (Nanoseconds z) (Latency c)\<rparr>)
      \<and> (\<forall>r. y = Some r \<and> sint (StatusCode r) sdiv 100 = 4 \<longrightarrow>
            c' = c\<lparr>Responses4xx := Responses4xx c + 1,
                   Latency := Update lib (Nanoseconds z) (Latency c)\<rparr>)
      \<and> (\<forall>r. y = Some r \<and> sint (StatusCode r) sdiv 100 = 5 \<longrightarrow>
            c' = c\<lparr>Responses5xx := Responses5xx c + 1,
                   Latency := Update lib (Nanoseconds z) (Latency c)\<rparr>)
      \<and> (y = None \<or> (\<exists>r. y = Some r \<and> sint (StatusCode r) sdiv 100 \<notin> {2, 3, 4, 5}) \<longrightarrow>
            c' = c\<lparr>ResponsesXxx := ResponsesXxx c + 1,
                   Latency := Update lib (Nanoseconds z) (Latency c)\<rparr>)"
proof -
  from live obtain a where p: "p = Addr a" and a: "a < length s" and c: "c = s ! a"
    by (auto simp: deref_def split: ptr.splits if_splits)
  let ?c' = "HttpMetric_CaptureResponse lib y z c"
  have call: "call_on p (HttpMetric_CaptureResponse lib y z) s = Inr (s[a := ?c'])"
    using p a c by (simp add: call_on_def)
  have here: "deref (s[a := ?c']) p = Some ?c'"
    using p a by (simp add: deref_def)
  have frame: "\<forall>q. q \<noteq> p \<longrightarrow> deref (s[a := ?c']) q = deref s q"
    using p by (auto simp: deref_def split: ptr.splits)
  show ?thesis
    using call here frame
    by (auto simp: HttpMetric_CaptureResponse_def Inc_def Let_def go_div_100_class
          split: option.splits)
qed

theorem CaptureResponse_buckets_witness:
  "deref [NewHttpMetric_literal example_metrics] (Addr 0) = Some (NewHttpMetric_literal example_metrics)
   \<and> sint (StatusCode \<lparr>StatusCode = 404\<rparr>) sdiv 100 = 4
   \<and> (\<exists>s'. call_on (Addr 0)
              (HttpMetric_CaptureResponse example_metrics (Some \<lparr>StatusCode = 404\<rparr>) 1500)
              [NewHttpMetric_literal example_metrics] = Inr s'
          \<and> deref s' (Addr 0)
               = Some ((NewHttpMetric_literal example_metrics)
                         \<lparr>Responses4xx := 1, Latency := [1500]\<rparr>))"
proof -
  let ?c = "NewHttpMetric_literal example_metrics"
  have live: "deref [?c] (Addr 0) = Some ?c" by (simp add: deref_def)
  have four: "sint (StatusCode \<lparr>StatusCode = 404\<rparr>) sdiv 100 = 4"
    by (simp add: signed_divide_int_def)
  have c: "?c\<lparr>Responses4xx := Responses4xx ?c + 1,
                   Latency := Update example_metrics (Nanoseconds 1500) (Latency ?c)\<rparr>
         = ?c\<lparr>Responses4xx := 1, Latency := [1500]\<rparr>"
    by (simp add: NewHttpMetric_literal_def example_metrics_def Nanoseconds_def)
  from CaptureResponse_buckets [OF live, of example_metrics "Some \<lparr>StatusCode = 404\<rparr>" 1500]
  have "\<exists>s' c'. call_on (Addr 0)
              (HttpMetric_CaptureResponse example_metrics (Some \<lparr>StatusCode = 404\<rparr>) 1500)
              [?c] = Inr s'
       \<and> deref s' (Addr 0) = Some c'
       \<and> (\<forall>r. Some \<lparr>StatusCode = 404\<rparr> = Some r \<and> sint (StatusCode r) sdiv 100 = 4 \<longrightarrow>
            c' = ?c\<lparr>Responses4xx := Responses4xx ?c + 1,
                   Latency := Update example_metrics (Nanoseconds 1500) (Latency ?c)\<rparr>)"
    by (elim exE conjE, intro exI conjI) assumption+
  then obtain s' c' where run: "call_on (Addr 0)
              (HttpMetric_CaptureResponse example_metrics (Some \<lparr>StatusCode = 404\<rparr>) 1500)
              [?c] = Inr s'"
    and here: "deref s' (Addr 0) = Some c'"
    and four': "\<And>r. Some \<lparr>StatusCode = 404\<rparr> = Some r \<and> sint (StatusCode r) sdiv 100 = 4 \<Longrightarrow>
            c' = ?c\<lparr>Responses4xx := Responses4xx ?c + 1,
                   Latency := Update example_metrics (Nanoseconds 1500) (Latency ?c)\<rparr>"
    by blast
  from four' [of "\<lparr>StatusCode = 404\<rparr>"] four
  have "c' = ?c\<lparr>Responses4xx := Responses4xx ?c + 1,
                   Latency := Update example_metrics (Nanoseconds 1500) (Latency ?c)\<rparr>"
    by blast
  with c have "c' = ?c\<lparr>Responses4xx := 1, Latency := [1500]\<rparr>" by simp
  with live four run here show ?thesis by blast
qed

subsection \<open>Get-or-create\<close>

text \<open>
  Claim C6. Whenever \<open>httpMetric\<close> returns, the cell it returns is not nil and is the cell
  the map then holds for the tag, and a second call with the same tag on the resulting
  map and store returns the same cell and changes neither. It returns for every map but
  the nil map, on which the insertion panics.
\<close>

theorem httpMetric_get_or_create:
  "(\<forall>y x' s'. TaggedHttpMetric_httpMetric lib t x s = Inr (y, x', s') \<longrightarrow>
        y \<noteq> Null \<and> index_map x' t = y
        \<and> TaggedHttpMetric_httpMetric lib t x' s' = Inr (y, x', s'))
   \<and> (x \<noteq> None \<longrightarrow> (\<exists>y x' s'. TaggedHttpMetric_httpMetric lib t x s = Inr (y, x', s')))
   \<and> (x = None \<longrightarrow> TaggedHttpMetric_httpMetric lib t x s = Inl NilMapWrite)"
  by (auto simp: TaggedHttpMetric_httpMetric_def NewHttpMetric_def index_map_def Let_def
      split: option.splits if_splits)


theorem httpMetric_get_or_create_witness:
  "NewTaggedHttpMetric \<noteq> None
   \<and> TaggedHttpMetric_httpMetric example_metrics ''ruby'' NewTaggedHttpMetric []
       = Inr (Addr 0, Some (fmupd ''ruby'' (Addr 0) fmempty), [NewHttpMetric_literal example_metrics])
   \<and> Addr 0 \<noteq> Null
   \<and> index_map (Some (fmupd ''ruby'' (Addr 0) fmempty)) ''ruby'' = Addr 0
   \<and> TaggedHttpMetric_httpMetric example_metrics ''ruby''
        (Some (fmupd ''ruby'' (Addr 0) fmempty)) [NewHttpMetric_literal example_metrics]
       = Inr (Addr 0, Some (fmupd ''ruby'' (Addr 0) fmempty), [NewHttpMetric_literal example_metrics])"
proof -
  have first: "TaggedHttpMetric_httpMetric example_metrics ''ruby'' NewTaggedHttpMetric []
       = Inr (Addr 0, Some (fmupd ''ruby'' (Addr 0) fmempty), [NewHttpMetric_literal example_metrics])"
    by (simp add: TaggedHttpMetric_httpMetric_def NewTaggedHttpMetric_def index_map_def
        NewHttpMetric_def)
  have nonnil: "NewTaggedHttpMetric \<noteq> None" by (simp add: NewTaggedHttpMetric_def)
  from httpMetric_get_or_create [of example_metrics "''ruby''" NewTaggedHttpMetric "[]"]
  have "\<forall>y x' s'. TaggedHttpMetric_httpMetric example_metrics ''ruby'' NewTaggedHttpMetric [] = Inr (y, x', s') \<longrightarrow>
        y \<noteq> Null \<and> index_map x' ''ruby'' = y
        \<and> TaggedHttpMetric_httpMetric example_metrics ''ruby'' x' s' = Inr (y, x', s')"
    by (elim conjE)
  from this [rule_format, OF first] first nonnil show ?thesis by simp
qed

subsection \<open>The capture methods on well-formed states\<close>

lemma tagged_wf_iff:
  "tagged_wf x s \<longleftrightarrow>
     (\<exists>m. x = Some m \<and> (\<forall>t p. fmlookup m t = Some p \<longrightarrow> live s p)
        \<and> (\<forall>t t' p. fmlookup m t = Some p \<and> fmlookup m t' = Some p \<longrightarrow> t' = t))"
  by (auto simp: tagged_wf_def fmpred_iff split: option.splits)

lemma cells_of_iff: "p |\<in>| cells_of x \<longleftrightarrow> (\<exists>m t. x = Some m \<and> fmlookup m t = Some p)"
  by (auto simp: cells_of_def fmlookup_ran_iff split: option.splits)

lemma live_mono: "live s q \<Longrightarrow> length s \<le> length s' \<Longrightarrow> live s' q"
  by (auto simp: live_def split: ptr.splits)

lemma tagged_wf_mono: "tagged_wf x s \<Longrightarrow> length s \<le> length s' \<Longrightarrow> tagged_wf x s'"
  unfolding tagged_wf_iff by (blast intro: live_mono)

text \<open>get-or-create followed by an update of the cell\<close>

lemma tagged_update:
  fixes f :: "('m, 'h) HttpMetric \<Rightarrow> ('m, 'h) HttpMetric"
  assumes wf: "tagged_wf x s"
  shows "\<exists>x' s' p c0.
      and_then (TaggedHttpMetric_httpMetric lib t x s)
        (\<lambda>(y, x', s'). and_then (call_on y f s') (\<lambda>s''. Inr (x', s''))) = Inr (x', s')
    \<and> tagged_wf x' s'
    \<and> length s \<le> length s'
    \<and> index_map x' t = p \<and> p \<noteq> Null
    \<and> (\<forall>t'. t' \<noteq> t \<longrightarrow> index_map x' t' = index_map x t')
    \<and> cells_of x' |\<subseteq>| finsert p (cells_of x)
    \<and> cells_of x |\<subseteq>| cells_of x'
    \<and> (index_map x t \<noteq> Null \<longrightarrow> x' = x \<and> p = index_map x t \<and> length s' = length s \<and> deref s p = Some c0)
    \<and> (index_map x t = Null \<longrightarrow> p = Addr (length s) \<and> length s' = Suc (length s) \<and> c0 = NewHttpMetric_literal lib)
    \<and> deref s' p = Some (f c0)
    \<and> (\<forall>q. q \<noteq> p \<longrightarrow> live s q \<longrightarrow> deref s' q = deref s q)"
proof -
  from wf obtain m where m: "x = Some m"
    and lv: "\<And>t p. fmlookup m t = Some p \<Longrightarrow> live s p"
    and inj: "\<And>t t' p. fmlookup m t = Some p \<Longrightarrow> fmlookup m t' = Some p \<Longrightarrow> t' = t"
    unfolding tagged_wf_iff by blast
  show ?thesis
  proof (cases "index_map x t = Null")
    case True
    have none: "fmlookup m t = None"
    proof (cases "fmlookup m t")
      case (Some q)
      with True m have "q = Null" by (simp add: index_map_def)
      with lv [OF Some] show ?thesis by (simp add: live_def)
    qed simp
    let ?p = "Addr (length s)"
    let ?c = "NewHttpMetric_literal lib"
    let ?x' = "Some (fmupd t ?p m)"
    let ?s' = "(s @ [?c])[length s := f ?c]"
    have run: "and_then (TaggedHttpMetric_httpMetric lib t x s)
        (\<lambda>(y, x', s'). and_then (call_on y f s') (\<lambda>s''. Inr (x', s''))) = Inr (?x', ?s')"
      using True m by (simp add: TaggedHttpMetric_httpMetric_def NewHttpMetric_def and_then_def call_on_def)
    have fresh: "\<And>t'. fmlookup m t' \<noteq> Some ?p"
      using lv by (fastforce simp: live_def)
    have len: "length ?s' = Suc (length s)" by simp
    have wf': "tagged_wf ?x' ?s'"
      unfolding tagged_wf_iff
    proof (intro exI [of _ "fmupd t ?p m"] conjI allI impI)
      fix t0 q assume q: "fmlookup (fmupd t ?p m) t0 = Some q"
      show "live ?s' q"
      proof (cases "t0 = t")
        case True
        with q have "q = ?p" by simp
        then show ?thesis by (simp add: live_def)
      next
        case False
        with q have "fmlookup m t0 = Some q" by simp
        from live_mono [OF lv [OF this], of ?s'] show ?thesis by simp
      qed
    next
      fix t0 t1 q
      assume "fmlookup (fmupd t ?p m) t0 = Some q \<and> fmlookup (fmupd t ?p m) t1 = Some q"
      then have a: "(if t = t0 then Some ?p else fmlookup m t0) = Some q"
        and b: "(if t = t1 then Some ?p else fmlookup m t1) = Some q" by simp_all
      show "t1 = t0"
      proof (cases "t = t0")
        case True
        with a have "q = ?p" by simp
        with b fresh [of t1] have "t = t1" by (simp split: if_splits)
        with True show ?thesis by simp
      next
        case False
        with a have a': "fmlookup m t0 = Some q" by simp
        with fresh [of t0] have "q \<noteq> ?p" by auto
        with b have "fmlookup m t1 = Some q" by (simp split: if_splits)
        from inj [OF a' this] show ?thesis .
      qed
    qed simp
    have sub1: "cells_of ?x' |\<subseteq>| finsert ?p (cells_of x)"
      using m by (auto simp: cells_of_iff split: if_splits)
    have sub2: "cells_of x |\<subseteq>| cells_of ?x'"
    proof
      fix q assume "q |\<in>| cells_of x"
      then obtain t0 where t0: "fmlookup m t0 = Some q" using m by (auto simp: cells_of_iff)
      with none have "t \<noteq> t0" by auto
      with t0 have "fmlookup (fmupd t ?p m) t0 = Some q" by simp
      then show "q |\<in>| cells_of ?x'" unfolding cells_of_iff by blast
    qed
    note sub = sub1 sub2
    have frame: "\<forall>q. q \<noteq> ?p \<longrightarrow> live s q \<longrightarrow> deref ?s' q = deref s q"
      by (auto simp: deref_def live_def nth_append split: ptr.splits)
    have here: "deref ?s' ?p = Some (f ?c)" "length ?s' = Suc (length s)"
      by (simp_all add: deref_def NewHttpMetric_def)
    have idx: "index_map ?x' t = ?p" "\<forall>t'. t' \<noteq> t \<longrightarrow> index_map ?x' t' = index_map x t'"
      using m by (auto simp: index_map_def)
    show ?thesis
      apply (rule exI [of _ ?x'], rule exI [of _ ?s'], rule exI [of _ ?p], rule exI [of _ ?c])
      using run wf' sub frame True here idx
      by simp
  next
    case False
    then obtain a where p: "index_map x t = Addr a" by (cases "index_map x t") auto
    then have look: "fmlookup m t = Some (Addr a)"
      using m by (auto simp: index_map_def split: option.splits)
    then have a: "a < length s" using lv by (fastforce simp: live_def)
    let ?s' = "s[a := f (s ! a)]"
    have run: "and_then (TaggedHttpMetric_httpMetric lib t x s)
        (\<lambda>(y, x', s'). and_then (call_on y f s') (\<lambda>s''. Inr (x', s''))) = Inr (x, ?s')"
      using p a by (simp add: TaggedHttpMetric_httpMetric_def and_then_def call_on_def)
    have wf': "tagged_wf x ?s'"
      using wf by (rule tagged_wf_mono) simp
    have frame: "\<forall>q. q \<noteq> Addr a \<longrightarrow> live s q \<longrightarrow> deref ?s' q = deref s q"
      by (auto simp: deref_def live_def split: ptr.splits)
    have here: "deref ?s' (Addr a) = Some (f (s ! a))" "deref s (Addr a) = Some (s ! a)"
      using a by (simp_all add: deref_def)
    show ?thesis
      apply (rule exI [of _ x], rule exI [of _ ?s'], rule exI [of _ "Addr a"], rule exI [of _ "s ! a"])
      using run wf' frame p here
      by auto
  qed
qed

lemma tagged_CaptureRequest_shape:
  "TaggedHttpMetric_CaptureRequest lib t x s = tagged_with lib t (HttpMetric_CaptureRequest lib) x s"
  by (simp add: TaggedHttpMetric_CaptureRequest_def tagged_with_def)

lemma tagged_CaptureResponse_shape:
  "TaggedHttpMetric_CaptureResponse lib t y z x s
     = tagged_with lib t (HttpMetric_CaptureResponse lib y z) x s"
  by (simp add: TaggedHttpMetric_CaptureResponse_def tagged_with_def)

lemma CaptureBackendRequest_shape:
  "Varz_CaptureBackendRequest lib b x s = capture_with lib (HttpMetric_CaptureRequest lib) b x s"
  unfolding Varz_CaptureBackendRequest_def capture_with_def dimension_with_def
    tagged_CaptureRequest_shape by (rule refl)

lemma CaptureBackendResponse_shape:
  "Varz_CaptureBackendResponse lib b res d x s
     = capture_with lib (HttpMetric_CaptureResponse lib res d) b x s"
  unfolding Varz_CaptureBackendResponse_def capture_with_def dimension_with_def
    tagged_CaptureResponse_shape by (rule refl)

lemma deref_Null [simp]: "deref s Null = None"
  by (simp add: deref_def)

lemma index_map_in_cells:
  "index_map x t \<noteq> Null \<Longrightarrow> index_map x t |\<in>| cells_of x"
  by (auto simp: index_map_def cells_of_iff split: option.splits)

lemma tagged_wf_live: "tagged_wf x s \<Longrightarrow> q |\<in>| cells_of x \<Longrightarrow> live s q"
  by (auto simp: tagged_wf_iff cells_of_iff)

lemma tagged_wf_inj:
  "tagged_wf x s \<Longrightarrow> index_map x t = index_map x t' \<Longrightarrow> index_map x t \<noteq> Null \<Longrightarrow> t' = t"
  unfolding tagged_wf_iff index_map_def
  by (auto split: option.splits)

lemma dimension_step:
  fixes f :: "('m, 'h) HttpMetric \<Rightarrow> ('m, 'h) HttpMetric"
  assumes wf: "tagged_wf x s"
  shows "\<exists>x' s'. dimension_with lib tg f x s = Inr (x', s')
      \<and> dimension_frame x s x' s' \<and> dimension_effect lib f tg x s x' s'"
proof (cases tg)
  case None
  then show ?thesis using wf
    by (simp add: dimension_with_def dimension_frame_def dimension_effect_def)
next
  case (Some t0)
  from tagged_update [OF wf, of lib t0 f]
  obtain x' s' p c0 where
    run: "tagged_with lib t0 f x s = Inr (x', s')"
    and wf': "tagged_wf x' s'"
    and len: "length s \<le> length s'"
    and p: "index_map x' t0 = p" "p \<noteq> Null"
    and others: "\<And>t'. t' \<noteq> t0 \<Longrightarrow> index_map x' t' = index_map x t'"
    and sub: "cells_of x' |\<subseteq>| finsert p (cells_of x)" "cells_of x |\<subseteq>| cells_of x'"
    and old: "index_map x t0 \<noteq> Null \<Longrightarrow> x' = x \<and> p = index_map x t0 \<and> length s' = length s \<and> deref s p = Some c0"
    and new: "index_map x t0 = Null \<Longrightarrow> p = Addr (length s) \<and> length s' = Suc (length s) \<and> c0 = NewHttpMetric_literal lib"
    and here: "deref s' p = Some (f c0)"
    and frame: "\<And>q. q \<noteq> p \<Longrightarrow> live s q \<Longrightarrow> deref s' q = deref s q"
    unfolding tagged_with_def by blast
  have fresh_or_old: "p |\<in>| cells_of x \<or> \<not> live s p"
  proof (cases "index_map x t0 = Null")
    case True
    with new show ?thesis by (simp add: live_def)
  next
    case False
    with old index_map_in_cells [of x t0] show ?thesis by simp
  qed
  have fr: "dimension_frame x s x' s'"
    unfolding dimension_frame_def
  proof (intro conjI allI impI)
    show "tagged_wf x' s'" by (fact wf')
    show "length s \<le> length s'" by (fact len)
    show "cells_of x |\<subseteq>| cells_of x'" by (fact sub)
  next
    fix q assume "q |\<in>| cells_of x'"
    with sub(1) have "q = p \<or> q |\<in>| cells_of x" by auto
    with fresh_or_old show "q |\<in>| cells_of x \<or> \<not> live s q" by auto
  next
    fix q assume q: "live s q" "q |\<notin>| cells_of x"
    with fresh_or_old have "q \<noteq> p" by auto
    from frame [OF this q(1)] show "deref s' q = deref s q" .
  qed
  have c0: "(case deref s (index_map x t0) of None \<Rightarrow> NewHttpMetric_literal lib | Some c \<Rightarrow> c) = c0"
  proof (cases "index_map x t0 = Null")
    case True
    with new show ?thesis by simp
  next
    case False
    with old have "deref s (index_map x t0) = Some c0" by auto
    then show ?thesis by simp
  qed
  have rest: "index_map x' t = index_map x t \<and> deref s' (index_map x t) = deref s (index_map x t)"
    if t: "t \<noteq> t0" for t
  proof (cases "index_map x t = Null")
    case True
    with others [OF t] show ?thesis by simp
  next
    case False
    have "index_map x' t \<noteq> p"
      using tagged_wf_inj [OF wf', of t t0] p t others [OF t] False by auto
    then have ne: "index_map x t \<noteq> p" using others [OF t] by simp
    have "live s (index_map x t)"
      using tagged_wf_live [OF wf index_map_in_cells [OF False]] .
    from frame [OF ne this] others [OF t] show ?thesis by simp
  qed
  have eff: "dimension_effect lib f tg x s x' s'"
    unfolding dimension_effect_def using Some p here c0 rest old by simp
  from run fr eff Some show ?thesis by (simp add: dimension_with_def)
qed

lemma varz_wf_iff:
  "varz_wf x s \<longleftrightarrow>
     live s (All_ptr x)
     \<and> tagged_wf (Tags_Component x) s \<and> tagged_wf (Tags_Framework x) s \<and> tagged_wf (Tags_Runtime x) s
     \<and> All_ptr x |\<notin>| cells_of (Tags_Component x)
     \<and> All_ptr x |\<notin>| cells_of (Tags_Framework x)
     \<and> All_ptr x |\<notin>| cells_of (Tags_Runtime x)
     \<and> (\<forall>q. q |\<in>| cells_of (Tags_Component x) \<longrightarrow> q |\<notin>| cells_of (Tags_Framework x))
     \<and> (\<forall>q. q |\<in>| cells_of (Tags_Component x) \<longrightarrow> q |\<notin>| cells_of (Tags_Runtime x))
     \<and> (\<forall>q. q |\<in>| cells_of (Tags_Framework x) \<longrightarrow> q |\<notin>| cells_of (Tags_Runtime x))"
  unfolding varz_wf_def by auto

lemma dimension_effect_transport:
  assumes eff: "dimension_effect lib f tg x sa x' sb"
    and sub: "cells_of x |\<subseteq>| cells_of x'"
    and pre: "\<And>q. q |\<in>| cells_of x \<Longrightarrow> deref s q = deref sa q"
    and post: "\<And>q. q |\<in>| cells_of x' \<Longrightarrow> deref s' q = deref sb q"
  shows "dimension_effect lib f tg x s x' s'"
proof -
  have pre': "deref s (index_map x t) = deref sa (index_map x t)" for t
    using pre [OF index_map_in_cells [of x t]] by (cases "index_map x t = Null") auto
  have post': "deref s' (index_map x' t) = deref sb (index_map x' t)" for t
    using post [OF index_map_in_cells [of x' t]] by (cases "index_map x' t = Null") auto
  have post'': "deref s' (index_map x t) = deref sb (index_map x t)" for t
  proof (cases "index_map x t = Null")
    case False
    from index_map_in_cells [OF this] sub have "index_map x t |\<in>| cells_of x'" by auto
    from post [OF this] show ?thesis .
  qed simp
  show ?thesis
  proof (cases tg)
    case None
    with eff sub pre post show ?thesis
      by (auto simp: dimension_effect_def)
  next
    case (Some t0)
    with eff show ?thesis
      by (simp add: dimension_effect_def pre' post' post'')
  qed
qed

lemma call_on_live:
  assumes "live s p"
  shows "\<exists>s' c. call_on p f s = Inr s' \<and> length s' = length s \<and> deref s p = Some c
     \<and> deref s' p = Some (f c) \<and> (\<forall>q. q \<noteq> p \<longrightarrow> deref s' q = deref s q)"
proof -
  from assms obtain a where p: "p = Addr a" and a: "a < length s"
    by (auto simp: live_def split: ptr.splits)
  have "\<forall>q. q \<noteq> p \<longrightarrow> deref (s[a := f (s ! a)]) q = deref s q"
    using p by (auto simp: deref_def split: ptr.splits)
  then show ?thesis using p a by (simp add: call_on_def deref_def)
qed

lemma capture_with_effect:
  fixes f :: "('m, 'h) HttpMetric \<Rightarrow> ('m, 'h) HttpMetric"
  assumes wf: "varz_wf x s"
  shows "\<exists>c fw r s' a.
      capture_with lib f b x s
        = Inr (x\<lparr>Tags_Component := c, Tags_Framework := fw, Tags_Runtime := r\<rparr>, s')
    \<and> varz_wf (x\<lparr>Tags_Component := c, Tags_Framework := fw, Tags_Runtime := r\<rparr>) s'
    \<and> deref s (All_ptr x) = Some a \<and> deref s' (All_ptr x) = Some (f a)
    \<and> dimension_effect lib f (fmlookup (Tags b) ''component'') (Tags_Component x) s c s'
    \<and> dimension_effect lib f (fmlookup (Tags b) ''framework'') (Tags_Framework x) s fw s'
    \<and> dimension_effect lib f (fmlookup (Tags b) ''runtime'') (Tags_Runtime x) s r s'"
proof -
  let ?A = "All_ptr x" and ?C = "Tags_Component x" and ?F = "Tags_Framework x" and ?R = "Tags_Runtime x"
  from wf have liveA: "live s ?A"
    and wfC: "tagged_wf ?C s" and wfF: "tagged_wf ?F s" and wfR: "tagged_wf ?R s"
    and AC: "?A |\<notin>| cells_of ?C" and AF: "?A |\<notin>| cells_of ?F" and AR: "?A |\<notin>| cells_of ?R"
    and CF: "\<And>q. q |\<in>| cells_of ?C \<Longrightarrow> q |\<notin>| cells_of ?F"
    and CR: "\<And>q. q |\<in>| cells_of ?C \<Longrightarrow> q |\<notin>| cells_of ?R"
    and FR: "\<And>q. q |\<in>| cells_of ?F \<Longrightarrow> q |\<notin>| cells_of ?R"
    unfolding varz_wf_iff by blast+
  \<comment> \<open>the component step\<close>
  from dimension_step [OF wfC, of lib "fmlookup (Tags b) ''component''" f]
  obtain c s1 where run1: "dimension_with lib (fmlookup (Tags b) ''component'') f ?C s = Inr (c, s1)"
    and fr1: "dimension_frame ?C s c s1"
    and eff1: "dimension_effect lib f (fmlookup (Tags b) ''component'') ?C s c s1" by blast
  from fr1 have wfc1: "tagged_wf c s1" and len1: "length s \<le> length s1"
    and sub1: "cells_of ?C |\<subseteq>| cells_of c"
    and new1: "\<And>q. q |\<in>| cells_of c \<Longrightarrow> q |\<in>| cells_of ?C \<or> \<not> live s q"
    and keep1: "\<And>q. live s q \<Longrightarrow> q |\<notin>| cells_of ?C \<Longrightarrow> deref s1 q = deref s q"
    unfolding dimension_frame_def by blast+
  \<comment> \<open>the framework step\<close>
  from dimension_step [OF tagged_wf_mono [OF wfF len1], of lib "fmlookup (Tags b) ''framework''" f]
  obtain fw s2 where run2: "dimension_with lib (fmlookup (Tags b) ''framework'') f ?F s1 = Inr (fw, s2)"
    and fr2: "dimension_frame ?F s1 fw s2"
    and eff2: "dimension_effect lib f (fmlookup (Tags b) ''framework'') ?F s1 fw s2" by blast
  from fr2 have wff2: "tagged_wf fw s2" and len2: "length s1 \<le> length s2"
    and sub2: "cells_of ?F |\<subseteq>| cells_of fw"
    and new2: "\<And>q. q |\<in>| cells_of fw \<Longrightarrow> q |\<in>| cells_of ?F \<or> \<not> live s1 q"
    and keep2: "\<And>q. live s1 q \<Longrightarrow> q |\<notin>| cells_of ?F \<Longrightarrow> deref s2 q = deref s1 q"
    unfolding dimension_frame_def by blast+
  \<comment> \<open>the runtime step\<close>
  have len02: "length s \<le> length s2" using len1 len2 by simp
  from dimension_step [OF tagged_wf_mono [OF wfR len02], of lib "fmlookup (Tags b) ''runtime''" f]
  obtain r s3 where run3: "dimension_with lib (fmlookup (Tags b) ''runtime'') f ?R s2 = Inr (r, s3)"
    and fr3: "dimension_frame ?R s2 r s3"
    and eff3: "dimension_effect lib f (fmlookup (Tags b) ''runtime'') ?R s2 r s3" by blast
  from fr3 have wfr3: "tagged_wf r s3" and len3: "length s2 \<le> length s3"
    and sub3: "cells_of ?R |\<subseteq>| cells_of r"
    and new3: "\<And>q. q |\<in>| cells_of r \<Longrightarrow> q |\<in>| cells_of ?R \<or> \<not> live s2 q"
    and keep3: "\<And>q. live s2 q \<Longrightarrow> q |\<notin>| cells_of ?R \<Longrightarrow> deref s3 q = deref s2 q"
    unfolding dimension_frame_def by blast+
  \<comment> \<open>the call on the All cell\<close>
  have liveA1: "live s1 ?A" and liveA2: "live s2 ?A" and liveA3: "live s3 ?A"
    using liveA len1 len2 len3 by (auto intro: live_mono)
  from call_on_live [OF liveA3, of f]
  obtain s4 a where run4: "call_on ?A f s3 = Inr s4" and len4: "length s4 = length s3"
    and a3: "deref s3 ?A = Some a" and a4: "deref s4 ?A = Some (f a)"
    and keep4: "\<And>q. q \<noteq> ?A \<Longrightarrow> deref s4 q = deref s3 q" by blast
  have A0: "deref s ?A = Some a"
    using keep1 [OF liveA AC] keep2 [OF liveA1 AF] keep3 [OF liveA2 AR] a3 by simp
  \<comment> \<open>liveness of the cells of the maps\<close>
  have lC: "\<And>q. q |\<in>| cells_of ?C \<Longrightarrow> live s q" using tagged_wf_live [OF wfC] .
  have lF: "\<And>q. q |\<in>| cells_of ?F \<Longrightarrow> live s q" using tagged_wf_live [OF wfF] .
  have lR: "\<And>q. q |\<in>| cells_of ?R \<Longrightarrow> live s q" using tagged_wf_live [OF wfR] .
  have lc: "\<And>q. q |\<in>| cells_of c \<Longrightarrow> live s1 q" using tagged_wf_live [OF wfc1] .
  have lf: "\<And>q. q |\<in>| cells_of fw \<Longrightarrow> live s2 q" using tagged_wf_live [OF wff2] .
  have up1: "\<And>q. live s q \<Longrightarrow> live s1 q" using len1 by (blast intro: live_mono)
  have up2: "\<And>q. live s1 q \<Longrightarrow> live s2 q" using len2 by (blast intro: live_mono)
  have up3: "\<And>q. live s2 q \<Longrightarrow> live s3 q" using len3 by (blast intro: live_mono)
  \<comment> \<open>the new maps stay apart\<close>
  have cF: "q |\<notin>| cells_of ?F" if "q |\<in>| cells_of c" for q
    using new1 [OF that] CF lF by blast
  have cR: "q |\<notin>| cells_of ?R" if "q |\<in>| cells_of c" for q
    using new1 [OF that] CR lR by blast
  have cA: "q \<noteq> ?A" if "q |\<in>| cells_of c" for q
    using new1 [OF that] AC liveA by blast
  have fR: "q |\<notin>| cells_of ?R" if "q |\<in>| cells_of fw" for q
    using new2 [OF that] FR lR up1 by blast
  have fA: "q \<noteq> ?A" if "q |\<in>| cells_of fw" for q
    using new2 [OF that] AF liveA1 by blast
  have rA: "q \<noteq> ?A" if "q |\<in>| cells_of r" for q
    using new3 [OF that] AR liveA2 by blast
  have cf: "q |\<notin>| cells_of fw" if "q |\<in>| cells_of c" for q
    using new2 [of q] cF [OF that] lc [OF that] by blast
  have cr: "q |\<notin>| cells_of r" if "q |\<in>| cells_of c" for q
    using new3 [of q] cR [OF that] up2 [OF lc [OF that]] by blast
  have fr: "q |\<notin>| cells_of r" if "q |\<in>| cells_of fw" for q
    using new3 [of q] fR [OF that] lf [OF that] by blast
  \<comment> \<open>the cells of each map before and after its own step\<close>
  have c_after: "deref s4 q = deref s1 q" if "q |\<in>| cells_of c" for q
    using keep2 [OF lc [OF that] cF [OF that]] keep3 [OF up2 [OF lc [OF that]] cR [OF that]]
      keep4 [OF cA [OF that]] by simp
  have F_before: "deref s q = deref s1 q" if "q |\<in>| cells_of ?F" for q
    using keep1 [OF lF [OF that]] CF that by metis
  have f_after: "deref s4 q = deref s2 q" if "q |\<in>| cells_of fw" for q
    using keep3 [OF lf [OF that] fR [OF that]] keep4 [OF fA [OF that]] by simp
  have R_before: "deref s q = deref s2 q" if "q |\<in>| cells_of ?R" for q
  proof -
    have "deref s1 q = deref s q" using keep1 [OF lR [OF that]] CR that by metis
    moreover have "deref s2 q = deref s1 q" using keep2 [OF up1 [OF lR [OF that]]] FR that by metis
    ultimately show ?thesis by simp
  qed
  have r_after: "deref s4 q = deref s3 q" if "q |\<in>| cells_of r" for q
    using keep4 [OF rA [OF that]] .
  have E1: "dimension_effect lib f (fmlookup (Tags b) ''component'') ?C s c s4"
    by (rule dimension_effect_transport [OF eff1 sub1 refl c_after])
  have E2: "dimension_effect lib f (fmlookup (Tags b) ''framework'') ?F s fw s4"
    by (rule dimension_effect_transport [OF eff2 sub2 F_before f_after])
  have E3: "dimension_effect lib f (fmlookup (Tags b) ''runtime'') ?R s r s4"
    by (rule dimension_effect_transport [OF eff3 sub3 R_before r_after])
  \<comment> \<open>the state after the call is well formed\<close>
  let ?x' = "x\<lparr>Tags_Component := c, Tags_Framework := fw, Tags_Runtime := r\<rparr>"
  have len14: "length s1 \<le> length s4" and len24: "length s2 \<le> length s4"
    and len34: "length s3 \<le> length s4"
    using len2 len3 len4 by simp_all
  have wf': "varz_wf ?x' s4"
    unfolding varz_wf_iff
    using live_mono [OF liveA3 len34] tagged_wf_mono [OF wfc1 len14]
      tagged_wf_mono [OF wff2 len24] tagged_wf_mono [OF wfr3 len34]
      cA fA rA cf cr fr
    by auto
  have run: "capture_with lib f b x s = Inr (?x', s4)"
    by (simp add: capture_with_def run1 run2 run3 run4 and_then_def)
  from run wf' A0 a4 E1 E2 E3 show ?thesis by blast
qed

lemma NewVarz_wf: "varz_wf (fst (NewVarz lib s)) (snd (NewVarz lib s))"
  by (simp add: NewVarz_def NewHttpMetric_def varz_wf_def tagged_wf_def live_def cells_of_def)

lemma index_map_cases: "index_map x t = Null \<or> index_map x t |\<in>| cells_of x"
  using index_map_in_cells by blast

lemma effect_requests:
  assumes eff: "dimension_effect lib (HttpMetric_CaptureRequest lib) tg x s x' s'"
  shows "tag_requests s' x' t = tag_requests s x t + (if tg = Some t then 1 else 0)"
proof (cases tg)
  case None
  with eff have x': "x' = x" and keep: "\<And>q. q |\<in>| cells_of x \<Longrightarrow> deref s' q = deref s q"
    by (simp_all add: dimension_effect_def)
  have "deref s' (index_map x t) = deref s (index_map x t)"
    using index_map_cases [of x t] keep by auto
  with None x' show ?thesis by (simp add: tag_requests_def)
next
  case (Some t0)
  let ?c = "case deref s (index_map x t0) of None \<Rightarrow> NewHttpMetric_literal lib | Some c \<Rightarrow> c"
  from eff Some have here: "deref s' (index_map x' t0) = Some (HttpMetric_CaptureRequest lib ?c)"
    and rest: "\<And>t. t \<noteq> t0 \<Longrightarrow> index_map x' t = index_map x t
                \<and> deref s' (index_map x t) = deref s (index_map x t)"
    by (simp_all add: dimension_effect_def)
  show ?thesis
  proof (cases "t = t0")
    case True
    with Some here show ?thesis
      by (simp add: tag_requests_def HttpMetric_CaptureRequest_def Inc_def Count_def
          NewHttpMetric_literal_def split: option.splits)
  next
    case False
    with Some rest [OF False] show ?thesis by (simp add: tag_requests_def)
  qed
qed

lemma effect_absent:
  assumes eff: "dimension_effect lib f None x s x' s'"
  shows "x' = x \<and> (\<forall>q. q |\<in>| cells_of x \<longrightarrow> deref s' q = deref s q)"
  using eff by (simp add: dimension_effect_def)

text \<open>
  Claim C3. On a well-formed state \<open>CaptureBackendRequest\<close> returns a well-formed state.
  The \<open>All\<close> cell has had \<open>CaptureRequest\<close> run on it once: its request count is one
  higher and its meter is marked once. A dimension whose tag the backend lacks keeps its
  map and every one of its cells as they were; in particular, without a \<open>component\<close> tag
  no cell of the component dimension is created or changed. In each dimension the request
  count shown for a tag is one higher when that tag is the backend's tag of the
  dimension, and is unchanged otherwise.
\<close>

theorem CaptureBackendRequest_dimensions:
  assumes wf: "varz_wf x s"
  shows "\<exists>x' s' a.
      Varz_CaptureBackendRequest lib b x s = Inr (x', s')
    \<and> varz_wf x' s'
    \<and> All_ptr x' = All_ptr x
    \<and> deref s (All_ptr x) = Some a
    \<and> deref s' (All_ptr x) = Some (a\<lparr>Requests := Requests a + 1, Rate := Mark lib 1 (Rate a)\<rparr>)
    \<and> (fmlookup (Tags b) ''component'' = None \<longrightarrow>
          Tags_Component x' = Tags_Component x
          \<and> (\<forall>q. q |\<in>| cells_of (Tags_Component x) \<longrightarrow> deref s' q = deref s q))
    \<and> (fmlookup (Tags b) ''framework'' = None \<longrightarrow>
          Tags_Framework x' = Tags_Framework x
          \<and> (\<forall>q. q |\<in>| cells_of (Tags_Framework x) \<longrightarrow> deref s' q = deref s q))
    \<and> (fmlookup (Tags b) ''runtime'' = None \<longrightarrow>
          Tags_Runtime x' = Tags_Runtime x
          \<and> (\<forall>q. q |\<in>| cells_of (Tags_Runtime x) \<longrightarrow> deref s' q = deref s q))
    \<and> (\<forall>t. tag_requests s' (Tags_Component x') t
            = tag_requests s (Tags_Component x) t
              + (if fmlookup (Tags b) ''component'' = Some t then 1 else 0))
    \<and> (\<forall>t. tag_requests s' (Tags_Framework x') t
            = tag_requests s (Tags_Framework x) t
              + (if fmlookup (Tags b) ''framework'' = Some t then 1 else 0))
    \<and> (\<forall>t. tag_requests s' (Tags_Runtime x') t
            = tag_requests s (Tags_Runtime x) t
              + (if fmlookup (Tags b) ''runtime'' = Some t then 1 else 0))"
proof -
  let ?f = "HttpMetric_CaptureRequest lib"
  from capture_with_effect [OF wf, of lib ?f b]
  obtain c fw r s' a where
    run: "capture_with lib ?f b x s
        = Inr (x\<lparr>Tags_Component := c, Tags_Framework := fw, Tags_Runtime := r\<rparr>, s')"
    and wf': "varz_wf (x\<lparr>Tags_Component := c, Tags_Framework := fw, Tags_Runtime := r\<rparr>) s'"
    and a: "deref s (All_ptr x) = Some a" "deref s' (All_ptr x) = Some (?f a)"
    and E1: "dimension_effect lib ?f (fmlookup (Tags b) ''component'') (Tags_Component x) s c s'"
    and E2: "dimension_effect lib ?f (fmlookup (Tags b) ''framework'') (Tags_Framework x) s fw s'"
    and E3: "dimension_effect lib ?f (fmlookup (Tags b) ''runtime'') (Tags_Runtime x) s r s'"
    by blast
  let ?x' = "x\<lparr>Tags_Component := c, Tags_Framework := fw, Tags_Runtime := r\<rparr>"
  have fa: "?f a = a\<lparr>Requests := Requests a + 1, Rate := Mark lib 1 (Rate a)\<rparr>"
    by (simp add: HttpMetric_CaptureRequest_def Inc_def)
  have A1: "fmlookup (Tags b) ''component'' = None \<longrightarrow>
          Tags_Component ?x' = Tags_Component x
          \<and> (\<forall>q. q |\<in>| cells_of (Tags_Component x) \<longrightarrow> deref s' q = deref s q)"
    using E1 effect_absent [of lib ?f "Tags_Component x" s c s'] by auto
  have A2: "fmlookup (Tags b) ''framework'' = None \<longrightarrow>
          Tags_Framework ?x' = Tags_Framework x
          \<and> (\<forall>q. q |\<in>| cells_of (Tags_Framework x) \<longrightarrow> deref s' q = deref s q)"
    using E2 effect_absent [of lib ?f "Tags_Framework x" s fw s'] by auto
  have A3: "fmlookup (Tags b) ''runtime'' = None \<longrightarrow>
          Tags_Runtime ?x' = Tags_Runtime x
          \<and> (\<forall>q. q |\<in>| cells_of (Tags_Runtime x) \<longrightarrow> deref s' q = deref s q)"
    using E3 effect_absent [of lib ?f "Tags_Runtime x" s r s'] by auto
  have R1: "\<forall>t. tag_requests s' (Tags_Component ?x') t
            = tag_requests s (Tags_Component x) t
              + (if fmlookup (Tags b) ''component'' = Some t then 1 else 0)"
    using effect_requests [OF E1] by simp
  have R2: "\<forall>t. tag_requests s' (Tags_Framework ?x') t
            = tag_requests s (Tags_Framework x) t
              + (if fmlookup (Tags b) ''framework'' = Some t then 1 else 0)"
    using effect_requests [OF E2] by simp
  have R3: "\<forall>t. tag_requests s' (Tags_Runtime ?x') t
            = tag_requests s (Tags_Runtime x) t
              + (if fmlookup (Tags b) ''runtime'' = Some t then 1 else 0)"
    using effect_requests [OF E3] by simp
  have run': "Varz_CaptureBackendRequest lib b x s = Inr (?x', s')"
    using run by (simp add: CaptureBackendRequest_shape)
  have same: "All_ptr ?x' = All_ptr x" by simp
  show ?thesis
    apply (rule exI [of _ ?x'], rule exI [of _ s'], rule exI [of _ a])
    using run' wf' same a(1) a(2) [unfolded fa] A1 A2 A3 R1 R2 R3
    by (intro conjI) assumption+
qed

theorem CaptureBackendRequest_dimensions_witness:
  "varz_wf (fst (NewVarz example_metrics [])) (snd (NewVarz example_metrics []))
   \<and> fmlookup (Tags \<lparr>Tags = fmupd ''framework'' ''rails'' fmempty\<rparr>) ''component'' = None
   \<and> (\<exists>x' s'. Varz_CaptureBackendRequest example_metrics
                  \<lparr>Tags = fmupd ''framework'' ''rails'' fmempty\<rparr>
                  (fst (NewVarz example_metrics [])) (snd (NewVarz example_metrics []))
                = Inr (x', s')
          \<and> Tags_Component x' = Some fmempty
          \<and> tag_requests s' (Tags_Framework x') ''rails'' = 1
          \<and> tag_requests s' (Tags_Framework x') ''sinatra'' = 0
          \<and> map_option Requests (deref s' (All_ptr x')) = Some 1)"
proof -
  let ?x = "fst (NewVarz example_metrics [])" and ?s = "snd (NewVarz example_metrics [])"
  let ?b = "\<lparr>Tags = fmupd ''framework'' ''rails'' fmempty\<rparr>"
  have wf: "varz_wf ?x ?s"
    by (simp add: NewVarz_def NewHttpMetric_def varz_wf_def tagged_wf_def live_def cells_of_def)
  have none: "fmlookup (Tags ?b) ''component'' = None" by simp
  have fw: "fmlookup (Tags ?b) ''framework'' = Some ''rails''" by simp
  have before: "Tags_Component ?x = Some fmempty"
    "tag_requests ?s (Tags_Framework ?x) ''rails'' = 0"
    "tag_requests ?s (Tags_Framework ?x) ''sinatra'' = 0"
    "deref ?s (All_ptr ?x) = Some (NewHttpMetric_literal example_metrics)"
    by (simp_all add: NewVarz_def NewHttpMetric_def tag_requests_def index_map_def deref_def)
  from CaptureBackendRequest_dimensions [OF wf, of example_metrics ?b]
  have "\<exists>x' s' a. Varz_CaptureBackendRequest example_metrics ?b ?x ?s = Inr (x', s')
    \<and> All_ptr x' = All_ptr ?x \<and> deref ?s (All_ptr ?x) = Some a
    \<and> deref s' (All_ptr ?x) = Some (a\<lparr>Requests := Requests a + 1, Rate := Mark example_metrics 1 (Rate a)\<rparr>)
    \<and> (fmlookup (Tags ?b) ''component'' = None \<longrightarrow>
          Tags_Component x' = Tags_Component ?x
          \<and> (\<forall>q. q |\<in>| cells_of (Tags_Component ?x) \<longrightarrow> deref s' q = deref ?s q))
    \<and> (\<forall>t. tag_requests s' (Tags_Framework x') t
            = tag_requests ?s (Tags_Framework ?x) t
              + (if fmlookup (Tags ?b) ''framework'' = Some t then 1 else 0))"
    by (elim exE conjE, intro exI conjI) assumption+
  then obtain x' s' a where run: "Varz_CaptureBackendRequest example_metrics ?b ?x ?s = Inr (x', s')"
    and all: "All_ptr x' = All_ptr ?x" "deref ?s (All_ptr ?x) = Some a"
      "deref s' (All_ptr ?x) = Some (a\<lparr>Requests := Requests a + 1, Rate := Mark example_metrics 1 (Rate a)\<rparr>)"
    and comp: "fmlookup (Tags ?b) ''component'' = None \<longrightarrow>
          Tags_Component x' = Tags_Component ?x
          \<and> (\<forall>q. q |\<in>| cells_of (Tags_Component ?x) \<longrightarrow> deref s' q = deref ?s q)"
    and req: "\<And>t. tag_requests s' (Tags_Framework x') t
            = tag_requests ?s (Tags_Framework ?x) t
              + (if fmlookup (Tags ?b) ''framework'' = Some t then 1 else 0)"
    by (elim exE conjE) (rule that, (assumption | simp)+)
  from comp none before(1) have c: "Tags_Component x' = Some fmempty" by simp
  from req [of "''rails''"] fw before(2)
  have r1: "tag_requests s' (Tags_Framework x') ''rails'' = 1" by simp
  from req [of "''sinatra''"] fw before(3)
  have r2: "tag_requests s' (Tags_Framework x') ''sinatra'' = 0" by simp
  from all(2) before(4) have a: "a = NewHttpMetric_literal example_metrics" by simp
  have "map_option Requests (deref s' (All_ptr x')) = Some 1"
    unfolding all(1) all(3) a by (simp add: NewHttpMetric_literal_def)
  with wf none run c r1 r2 show ?thesis by blast
qed

text \<open>
  The other methods keep a state well formed too, so the well-formed states include
  every state reached from \<open>NewVarz\<close> by the methods of \<open>Varz\<close>.
\<close>

lemma CaptureBackendResponse_wf:
  assumes "varz_wf x s"
  shows "\<exists>x' s'. Varz_CaptureBackendResponse lib b res d x s = Inr (x', s') \<and> varz_wf x' s'"
  using capture_with_effect [OF assms, of lib "HttpMetric_CaptureResponse lib res d" b]
  unfolding CaptureBackendResponse_shape by blast

lemma CaptureBadRequest_wf: "varz_wf x s \<Longrightarrow> varz_wf (Varz_CaptureBadRequest x) s"
  by (simp add: varz_wf_def Varz_CaptureBadRequest_def)

subsection \<open>Serialization\<close>

lemma updateTop_loop_returns:
  "lifetime \<noteq> 0 \<Longrightarrow> updateTop_loop lifetime zs acc = Inr (acc @ map (top_entry lifetime) zs)"
  by (induction zs arbitrary: acc) (simp_all add: top_entry_def)

lemma updateTop_loop_result:
  "updateTop_loop lifetime zs acc = Inr tops \<Longrightarrow> tops = acc @ map (top_entry lifetime) zs"
proof (induction zs arbitrary: acc)
  case Nil
  then show ?case by simp
next
  case (Cons z zs)
  from Cons.prems have nz: "lifetime \<noteq> 0"
    and run: "updateTop_loop lifetime zs (acc @ [top_entry lifetime z]) = Inr tops"
    by (auto simp: top_entry_def split: if_splits)
  from Cons.IH [OF run] show ?case by simp
qed

lemma length_TopSince: "length (TopSince ranking t n) \<le> nat (sint n)"
  by (simp add: TopSince_def)

lemma go_div_600_60: "go_div 600 60 = 10"
  by (simp add: go_div_def signed_divide_int_def)

lemma updateTop_result:
  assumes "Varz_updateTop now lifetime x = Inr x'"
  shows "\<exists>r. Registry_ptr x = Some r
     \<and> x' = x\<lparr>TopApps := map (top_entry lifetime) (TopSince (Registry_TopApps r) (now - Minute) 10)\<rparr>"
  using assms
  by (auto simp: Varz_updateTop_def and_then_def Let_def split: option.splits sum.splits
      dest: updateTop_loop_result)


lemma and_then_Inr:
  "and_then m f = Inr v \<longleftrightarrow> (\<exists>u. m = Inr u \<and> f u = Inr v)"
  by (cases m) (simp_all add: and_then_def)

lemma MarshalJSON_result:
  assumes run: "Varz_MarshalJSON lib now lifetime x s = Inr (b, x', s')"
  shows "\<exists>r a. Registry_ptr x = Some r \<and> deref s (All_ptr x) = Some a
     \<and> Varz_updateTop now lifetime
          (x\<lparr>Urls := NumUris r, Droplets := NumBackends r, RequestsPerSec := Rate1 lib (Rate a)\<rparr>)
        = Inr x'
     \<and> marshal_varz lib s x' = Inr b \<and> s' = s"
proof (cases "Registry_ptr x")
  case None
  with run show ?thesis by (simp add: Varz_MarshalJSON_def)
next
  case (Some r)
  show ?thesis
  proof (cases "deref s (All_ptr x)")
    case None
    with run Some show ?thesis by (simp add: Varz_MarshalJSON_def)
  next
    case a: (Some a)
    let ?x3 = "x\<lparr>Urls := NumUris r, Droplets := NumBackends r, RequestsPerSec := Rate1 lib (Rate a)\<rparr>"
    from run Some a have
      "and_then (Varz_updateTop now lifetime ?x3)
         (\<lambda>x4. and_then (marshal_varz lib s x4) (\<lambda>b. Inr (b, x4, s))) = Inr (b, x', s')"
      by (simp add: Varz_MarshalJSON_def)
    then obtain x4 where up: "Varz_updateTop now lifetime ?x3 = Inr x4"
      and m: "and_then (marshal_varz lib s x4) (\<lambda>b. Inr (b, x4, s)) = Inr (b, x', s')"
      unfolding and_then_Inr [of "Varz_updateTop now lifetime ?x3"] by blast
    from m obtain b' where "marshal_varz lib s x4 = Inr b'" "Inr (b', x4, s) = (Inr (b, x', s') :: panic + _)"
      unfolding and_then_Inr by blast
    with up Some a show ?thesis by simp
  qed
qed

lemma marshal_varz_result:
  assumes "marshal_varz lib s x = Inr b"
  shows "\<exists>a c f r. marshal_ptr lib s (All_ptr x) = Inr a
     \<and> marshal_TaggedHttpMetric lib s (Tags_Component x) = Inr c
     \<and> marshal_TaggedHttpMetric lib s (Tags_Framework x) = Inr f
     \<and> marshal_TaggedHttpMetric lib s (Tags_Runtime x) = Inr r
     \<and> b = \<lparr>json_all = a, json_component = c, json_framework = f, json_runtime = r,
            json_urls = Urls x, json_droplets = Droplets x,
            json_bad_requests = BadRequests x,
            json_requests_per_sec = RequestsPerSec x,
            json_top10_app_requests = TopApps x\<rparr>"
  using assms unfolding marshal_varz_def and_then_Inr by blast

text \<open>
  Claim C5. \<open>updateTop\<close> asks the registry for the top 10 entries since one minute before
  \<open>now\<close> and replaces \<open>TopApps\<close> by one entry for each of them, in order, whose \<open>rpm\<close> is the
  entry's request count and whose \<open>rps\<close> is that count divided (truncating) by the lifetime
  in seconds; it returns whenever the registry is set and the lifetime is not zero. The
  list has at most 10 entries, and it is the list of the document that \<open>MarshalJSON\<close>
  returns. With a lifetime of 60 seconds, 600 requests give \<open>rps = 10\<close> and \<open>rpm = 600\<close>.
\<close>

theorem updateTop_conversion:
  "(Registry_ptr x = Some r \<and> lifetime \<noteq> 0 \<longrightarrow>
      Varz_updateTop now lifetime x
        = Inr (x\<lparr>TopApps := map (top_entry lifetime)
                              (TopSince (Registry_TopApps r) (now - Minute) 10)\<rparr>))
   \<and> (\<forall>x'. Varz_updateTop now lifetime x = Inr x' \<longrightarrow>
        (\<exists>r. Registry_ptr x = Some r
           \<and> TopApps x' = map (top_entry lifetime) (TopSince (Registry_TopApps r) (now - Minute) 10))
        \<and> length (TopApps x') \<le> 10)
   \<and> (\<forall>b x' s'. Varz_MarshalJSON lib now lifetime x s = Inr (b, x', s') \<longrightarrow>
        (\<exists>r. Registry_ptr x = Some r
           \<and> json_top10_app_requests b
               = map (top_entry lifetime) (TopSince (Registry_TopApps r) (now - Minute) 10))
        \<and> length (json_top10_app_requests b) \<le> 10)
   \<and> RequestsPerMinute (top_entry lifetime z) = Entry_Requests z
   \<and> RequestsPerSecond (top_entry lifetime z) = go_div (Entry_Requests z) lifetime
   \<and> (Entry_Requests z = 600 \<longrightarrow>
        RequestsPerSecond (top_entry 60 z) = 10 \<and> RequestsPerMinute (top_entry 60 z) = 600)"
proof (intro conjI allI impI)
  assume "Registry_ptr x = Some r \<and> lifetime \<noteq> 0"
  then show "Varz_updateTop now lifetime x
        = Inr (x\<lparr>TopApps := map (top_entry lifetime)
                              (TopSince (Registry_TopApps r) (now - Minute) 10)\<rparr>)"
    by (simp add: Varz_updateTop_def and_then_def updateTop_loop_returns)
next
  fix x' assume "Varz_updateTop now lifetime x = Inr x'"
  from updateTop_result [OF this]
  obtain r where r: "Registry_ptr x = Some r"
    "x' = x\<lparr>TopApps := map (top_entry lifetime) (TopSince (Registry_TopApps r) (now - Minute) 10)\<rparr>"
    by blast
  then show "\<exists>r. Registry_ptr x = Some r
           \<and> TopApps x' = map (top_entry lifetime) (TopSince (Registry_TopApps r) (now - Minute) 10)"
    by simp
  show "length (TopApps x') \<le> 10"
    using r(2) length_TopSince [of "Registry_TopApps r" "now - Minute" 10] by simp
next
  fix b x' s' assume run: "Varz_MarshalJSON lib now lifetime x s = Inr (b, x', s')"
  from MarshalJSON_result [OF this]
  obtain r a where r: "Registry_ptr x = Some r"
    and up: "Varz_updateTop now lifetime
               (x\<lparr>Urls := NumUris r, Droplets := NumBackends r, RequestsPerSec := Rate1 lib (Rate a)\<rparr>)
             = Inr x'"
    and b: "marshal_varz lib s x' = Inr b" and "deref s (All_ptr x) = Some a"
    by blast
  from updateTop_result [OF up] r
  have tops: "TopApps x' = map (top_entry lifetime) (TopSince (Registry_TopApps r) (now - Minute) 10)"
    by auto
  from marshal_varz_result [OF b] have "json_top10_app_requests b = TopApps x'"
    by auto
  with tops r show "\<exists>r. Registry_ptr x = Some r
           \<and> json_top10_app_requests b
               = map (top_entry lifetime) (TopSince (Registry_TopApps r) (now - Minute) 10)"
    by simp
  from \<open>json_top10_app_requests b = TopApps x'\<close> tops
  show "length (json_top10_app_requests b) \<le> 10"
    using length_TopSince [of "Registry_TopApps r" "now - Minute" 10] by simp
next
  show "RequestsPerMinute (top_entry lifetime z) = Entry_Requests z"
    by (simp add: top_entry_def)
  show "RequestsPerSecond (top_entry lifetime z) = go_div (Entry_Requests z) lifetime"
    by (simp add: top_entry_def)
next
  assume "Entry_Requests z = 600"
  then show "RequestsPerSecond (top_entry 60 z) = 10" "RequestsPerMinute (top_entry 60 z) = 600"
    by (simp_all add: top_entry_def go_div_600_60)
qed

theorem updateTop_conversion_witness:
  "Registry_ptr ((fst (NewVarz example_metrics []))
       \<lparr>Registry_ptr := Some \<lparr>NumUris = 3, NumBackends = 5,
            Registry_TopApps = (\<lambda>t. [\<lparr>Entry_ApplicationId = ''app-1'', Entry_Requests = 600\<rparr>])\<rparr>\<rparr>)
     = Some \<lparr>NumUris = 3, NumBackends = 5,
            Registry_TopApps = (\<lambda>t. [\<lparr>Entry_ApplicationId = ''app-1'', Entry_Requests = 600\<rparr>])\<rparr>
   \<and> (60 :: int64) \<noteq> 0
   \<and> map_sum id TopApps
       (Varz_updateTop 0 60 ((fst (NewVarz example_metrics []))
         \<lparr>Registry_ptr := Some \<lparr>NumUris = 3, NumBackends = 5,
            Registry_TopApps = (\<lambda>t. [\<lparr>Entry_ApplicationId = ''app-1'', Entry_Requests = 600\<rparr>])\<rparr>\<rparr>))
     = Inr [\<lparr>ApplicationId = ''app-1'', RequestsPerSecond = 10, RequestsPerMinute = 600\<rparr>]"
proof -
  let ?z = "\<lparr>Entry_ApplicationId = ''app-1'', Entry_Requests = 600\<rparr>"
  let ?r = "\<lparr>NumUris = 3, NumBackends = 5, Registry_TopApps = (\<lambda>t. [?z])\<rparr>"
  let ?x = "(fst (NewVarz example_metrics []))\<lparr>Registry_ptr := Some ?r\<rparr>"
  have r: "Registry_ptr ?x = Some ?r" by simp
  have nz: "(60 :: int64) \<noteq> 0" by simp
  have z: "Entry_Requests ?z = 600" by simp
  note conv = updateTop_conversion [of ?x ?r 60 0 example_metrics "[]" ?z]
  have run: "Registry_ptr ?x = Some ?r \<and> (60 :: int64) \<noteq> 0 \<longrightarrow> Varz_updateTop 0 60 ?x
        = Inr (?x\<lparr>TopApps := map (top_entry 60) (TopSince (Registry_TopApps ?r) (0 - Minute) 10)\<rparr>)"
    and e: "Entry_Requests ?z = 600 \<longrightarrow>
        RequestsPerSecond (top_entry 60 ?z) = 10 \<and> RequestsPerMinute (top_entry 60 ?z) = 600"
    using conv [THEN conjunct1]
      conv [THEN conjunct2, THEN conjunct2, THEN conjunct2, THEN conjunct2, THEN conjunct2]
    by - assumption+
  from e z have e': "top_entry 60 ?z
     = \<lparr>ApplicationId = ''app-1'', RequestsPerSecond = 10, RequestsPerMinute = 600\<rparr>"
    by (simp add: top_entry_def)
  have "map (top_entry 60) (TopSince (Registry_TopApps ?r) (0 - Minute) 10) = [top_entry 60 ?z]"
    by (simp add: TopSince_def)
  with run r nz e' show ?thesis by simp
qed

lemma counters_MarshalJSON:
  "httpMetric_counters (HttpMetric_MarshalJSON lib c)
     = [Requests c, Responses2xx c, Responses3xx c, Responses4xx c, Responses5xx c, ResponsesXxx c]"
  by (simp add: httpMetric_counters_def HttpMetric_MarshalJSON_def Count_def Let_def)

lemma marshal_ptr_counters:
  assumes "marshal_ptr lib s p = Inr v" "marshal_ptr lib2 s p = Inr v2"
  shows "map_option httpMetric_counters v2 = map_option httpMetric_counters v"
  using assms
  by (auto simp: marshal_ptr_def counters_MarshalJSON split: ptr.splits if_splits)

lemma marshal_Tagged_counters:
  assumes "marshal_TaggedHttpMetric lib s x = Inr v" "marshal_TaggedHttpMetric lib2 s x = Inr v2"
  shows "map_option (fmmap (map_option httpMetric_counters)) v2
       = map_option (fmmap (map_option httpMetric_counters)) v"
proof (cases x)
  case None
  with assms show ?thesis by (simp add: marshal_TaggedHttpMetric_def)
next
  case (Some m)
  with assms have ok: "fmpred (\<lambda>t p. \<not> isl (marshal_ptr lib s p)) m"
    and v: "v = Some (fmmap (\<lambda>p. projr (marshal_ptr lib s p)) m)"
    and ok2: "fmpred (\<lambda>t p. \<not> isl (marshal_ptr lib2 s p)) m"
    and v2: "v2 = Some (fmmap (\<lambda>p. projr (marshal_ptr lib2 s p)) m)"
    by (auto simp: marshal_TaggedHttpMetric_def split: if_splits)
  have "fmmap (map_option httpMetric_counters) (fmmap (\<lambda>p. projr (marshal_ptr lib2 s p)) m)
      = fmmap (map_option httpMetric_counters) (fmmap (\<lambda>p. projr (marshal_ptr lib s p)) m)"
  proof (rule fmap_ext)
    fix t
    show "fmlookup (fmmap (map_option httpMetric_counters) (fmmap (\<lambda>p. projr (marshal_ptr lib2 s p)) m)) t
        = fmlookup (fmmap (map_option httpMetric_counters) (fmmap (\<lambda>p. projr (marshal_ptr lib s p)) m)) t"
    proof (cases "fmlookup m t")
      case None
      then show ?thesis by simp
    next
      case (Some p)
      from ok Some have "\<not> isl (marshal_ptr lib s p)" by (auto simp: fmpred_iff)
      then obtain w where w: "marshal_ptr lib s p = Inr w" by (cases "marshal_ptr lib s p") auto
      from ok2 Some have "\<not> isl (marshal_ptr lib2 s p)" by (auto simp: fmpred_iff)
      then obtain w2 where w2: "marshal_ptr lib2 s p = Inr w2" by (cases "marshal_ptr lib2 s p") auto
      from marshal_ptr_counters [OF w w2] Some w w2 show ?thesis by simp
    qed
  qed
  with v v2 show ?thesis by simp
qed

lemma MarshalJSON_wf:
  assumes wf: "varz_wf x s" and run: "Varz_MarshalJSON lib now lifetime x s = Inr (b, x', s')"
  shows "varz_wf x' s'"
proof -
  from MarshalJSON_result [OF run]
  obtain r a where r: "Registry_ptr x = Some r" and a: "deref s (All_ptr x) = Some a"
    and up: "Varz_updateTop now lifetime
          (x\<lparr>Urls := NumUris r, Droplets := NumBackends r, RequestsPerSec := Rate1 lib (Rate a)\<rparr>)
        = Inr x'"
    and m: "marshal_varz lib s x' = Inr b" and s': "s' = s"
    by blast
  from updateTop_result [OF up]
  have "All_ptr x' = All_ptr x" "Tags_Component x' = Tags_Component x"
    "Tags_Framework x' = Tags_Framework x" "Tags_Runtime x' = Tags_Runtime x"
    by auto
  with wf s' show ?thesis by (simp add: varz_wf_def)
qed

text \<open>
  Claim C9. When \<open>MarshalJSON\<close> returns, the store of cells is the one it was called
  on, and the aggregator differs from the one before the call in the four derived fields
  \<open>Urls\<close>, \<open>Droplets\<close>, \<open>RequestsPerSec\<close> and \<open>TopApps\<close> only: the \<open>All\<close> pointer, the
  three tag maps and \<open>BadRequests\<close> are unchanged. A second serialization with no capture
  in between, whatever the clock, the registry and the rates and percentiles the library
  then reports, shows the same counters in \<open>all\<close>, in every cell of the three tag maps
  and in \<open>bad_requests\<close>.
\<close>

theorem MarshalJSON_read_only:
  assumes run: "Varz_MarshalJSON lib now lifetime x s = Inr (b, x', s')"
  shows "s' = s
    \<and> (\<exists>r a. Registry_ptr x = Some r \<and> deref s (All_ptr x) = Some a
          \<and> x' = x\<lparr>Urls := NumUris r, Droplets := NumBackends r,
                    RequestsPerSec := Rate1 lib (Rate a),
                    TopApps := map (top_entry lifetime)
                                 (TopSince (Registry_TopApps r) (now - Minute) 10)\<rparr>)
    \<and> All_ptr x' = All_ptr x
    \<and> Tags_Component x' = Tags_Component x
    \<and> Tags_Framework x' = Tags_Framework x
    \<and> Tags_Runtime x' = Tags_Runtime x
    \<and> BadRequests x' = BadRequests x
    \<and> (\<forall>lib2 now2 lifetime2 r2 b2 x2 s2.
          Varz_MarshalJSON lib2 now2 lifetime2 (x'\<lparr>Registry_ptr := r2\<rparr>) s' = Inr (b2, x2, s2) \<longrightarrow>
            json_bad_requests b2 = json_bad_requests b
          \<and> map_option httpMetric_counters (json_all b2) = map_option httpMetric_counters (json_all b)
          \<and> map_option (fmmap (map_option httpMetric_counters)) (json_component b2)
              = map_option (fmmap (map_option httpMetric_counters)) (json_component b)
          \<and> map_option (fmmap (map_option httpMetric_counters)) (json_framework b2)
              = map_option (fmmap (map_option httpMetric_counters)) (json_framework b)
          \<and> map_option (fmmap (map_option httpMetric_counters)) (json_runtime b2)
              = map_option (fmmap (map_option httpMetric_counters)) (json_runtime b))"
proof -
  from MarshalJSON_result [OF run]
  obtain r a where r: "Registry_ptr x = Some r" and a: "deref s (All_ptr x) = Some a"
    and up: "Varz_updateTop now lifetime
          (x\<lparr>Urls := NumUris r, Droplets := NumBackends r, RequestsPerSec := Rate1 lib (Rate a)\<rparr>)
        = Inr x'"
    and m: "marshal_varz lib s x' = Inr b" and s': "s' = s"
    by blast
  from updateTop_result [OF up]
  have x': "x' = x\<lparr>Urls := NumUris r, Droplets := NumBackends r,
                    RequestsPerSec := Rate1 lib (Rate a),
                    TopApps := map (top_entry lifetime)
                                 (TopSince (Registry_TopApps r) (now - Minute) 10)\<rparr>"
    using r by auto
  from marshal_varz_result [OF m]
  obtain ja jc jf jr where j: "marshal_ptr lib s (All_ptr x') = Inr ja"
    "marshal_TaggedHttpMetric lib s (Tags_Component x') = Inr jc"
    "marshal_TaggedHttpMetric lib s (Tags_Framework x') = Inr jf"
    "marshal_TaggedHttpMetric lib s (Tags_Runtime x') = Inr jr"
    and b: "json_all b = ja" "json_component b = jc" "json_framework b = jf" "json_runtime b = jr"
      "json_bad_requests b = BadRequests x'"
    by auto
  have second: "json_bad_requests b2 = json_bad_requests b
          \<and> map_option httpMetric_counters (json_all b2) = map_option httpMetric_counters (json_all b)
          \<and> map_option (fmmap (map_option httpMetric_counters)) (json_component b2)
              = map_option (fmmap (map_option httpMetric_counters)) (json_component b)
          \<and> map_option (fmmap (map_option httpMetric_counters)) (json_framework b2)
              = map_option (fmmap (map_option httpMetric_counters)) (json_framework b)
          \<and> map_option (fmmap (map_option httpMetric_counters)) (json_runtime b2)
              = map_option (fmmap (map_option httpMetric_counters)) (json_runtime b)"
    if run2: "Varz_MarshalJSON lib2 now2 lifetime2 (x'\<lparr>Registry_ptr := r2\<rparr>) s' = Inr (b2, x2, s2)"
    for lib2 :: "('a, 'b) go_metrics" and now2 lifetime2 r2 b2 x2 s2
  proof -
    let ?y = "x'\<lparr>Registry_ptr := r2\<rparr>"
    from MarshalJSON_result [OF run2]
    obtain q c where q: "Registry_ptr ?y = Some q" and "deref s' (All_ptr ?y) = Some c"
      and up2: "Varz_updateTop now2 lifetime2
          (?y\<lparr>Urls := NumUris q, Droplets := NumBackends q, RequestsPerSec := Rate1 lib2 (Rate c)\<rparr>)
        = Inr x2"
      and m2: "marshal_varz lib2 s' x2 = Inr b2"
      by blast
    from updateTop_result [OF up2]
    have x2: "All_ptr x2 = All_ptr x'" "Tags_Component x2 = Tags_Component x'"
      "Tags_Framework x2 = Tags_Framework x'" "Tags_Runtime x2 = Tags_Runtime x'"
      "BadRequests x2 = BadRequests x'"
      by auto
    from marshal_varz_result [OF m2]
    obtain ka kc kf kr where k: "marshal_ptr lib2 s' (All_ptr x2) = Inr ka"
      "marshal_TaggedHttpMetric lib2 s' (Tags_Component x2) = Inr kc"
      "marshal_TaggedHttpMetric lib2 s' (Tags_Framework x2) = Inr kf"
      "marshal_TaggedHttpMetric lib2 s' (Tags_Runtime x2) = Inr kr"
      and b2: "json_all b2 = ka" "json_component b2 = kc" "json_framework b2 = kf"
        "json_runtime b2 = kr" "json_bad_requests b2 = BadRequests x2"
      by auto
    show ?thesis
      using marshal_ptr_counters [OF j(1) k(1) [unfolded x2 s']]
        marshal_Tagged_counters [OF j(2) k(2) [unfolded x2 s']]
        marshal_Tagged_counters [OF j(3) k(3) [unfolded x2 s']]
        marshal_Tagged_counters [OF j(4) k(4) [unfolded x2 s']]
        b b2 x2(5)
      by simp
  qed
  have fields: "All_ptr x' = All_ptr x" "Tags_Component x' = Tags_Component x"
    "Tags_Framework x' = Tags_Framework x" "Tags_Runtime x' = Tags_Runtime x"
    "BadRequests x' = BadRequests x"
    by (simp_all add: x')
  have ex: "\<exists>r a. Registry_ptr x = Some r \<and> deref s (All_ptr x) = Some a
          \<and> x' = x\<lparr>Urls := NumUris r, Droplets := NumBackends r,
                    RequestsPerSec := Rate1 lib (Rate a),
                    TopApps := map (top_entry lifetime)
                                 (TopSince (Registry_TopApps r) (now - Minute) 10)\<rparr>"
    using r a x' by (intro exI [of _ r] exI [of _ a] conjI)
  show ?thesis
    apply (intro conjI)
    apply (rule s')
    apply (rule ex)
    apply (rule fields)+
    apply (intro allI impI)
    apply (erule second)
    done
qed

theorem MarshalJSON_read_only_witness:
  "\<exists>b x'. Varz_MarshalJSON example_metrics 0 60
        ((fst (NewVarz example_metrics []))
           \<lparr>Registry_ptr := Some \<lparr>NumUris = 3, NumBackends = 5,
              Registry_TopApps = (\<lambda>t. [\<lparr>Entry_ApplicationId = ''app-1'', Entry_Requests = 600\<rparr>])\<rparr>\<rparr>)
        (snd (NewVarz example_metrics []))
      = Inr (b, x', snd (NewVarz example_metrics []))
    \<and> All_ptr x' = Addr 0 \<and> BadRequests x' = 0 \<and> Urls x' = 3 \<and> Droplets x' = 5
    \<and> Tags_Component x' = Some fmempty"
proof -
  let ?r = "\<lparr>NumUris = 3, NumBackends = 5,
              Registry_TopApps = (\<lambda>t. [\<lparr>Entry_ApplicationId = ''app-1'', Entry_Requests = 600\<rparr>])\<rparr>"
  let ?x = "(fst (NewVarz example_metrics []))\<lparr>Registry_ptr := Some ?r\<rparr>"
  let ?s = "snd (NewVarz example_metrics [])"
  have "\<exists>b x' s'. Varz_MarshalJSON example_metrics 0 60 ?x ?s = Inr (b, x', s')"
    by (simp add: Varz_MarshalJSON_def Varz_updateTop_def marshal_varz_def marshal_ptr_def
        marshal_TaggedHttpMetric_def and_then_def NewVarz_def NewHttpMetric_def deref_def
        TopSince_def)
  then obtain b x' s' where run: "Varz_MarshalJSON example_metrics 0 60 ?x ?s = Inr (b, x', s')"
    by blast
  note ro = MarshalJSON_read_only [OF run]
  note ro2 = ro [THEN conjunct2]
  note ro3 = ro2 [THEN conjunct2]
  note ro4 = ro3 [THEN conjunct2]
  note ro5 = ro4 [THEN conjunct2]
  note ro6 = ro5 [THEN conjunct2]
  have s': "s' = ?s" by (rule ro [THEN conjunct1])
  from ro2 [THEN conjunct1] have u: "Urls x' = 3" "Droplets x' = 5" by auto
  have f: "All_ptr x' = All_ptr ?x" "Tags_Component x' = Tags_Component ?x"
    "BadRequests x' = BadRequests ?x"
    by (rule ro3 [THEN conjunct1], rule ro4 [THEN conjunct1], rule ro6 [THEN conjunct2, THEN conjunct1])
  have "All_ptr x' = Addr 0" "BadRequests x' = 0" "Tags_Component x' = Some fmempty"
    unfolding f by (simp_all add: NewVarz_def NewHttpMetric_def)
  with run s' u show ?thesis by blast
qed

subsection \<open>Latency percentiles\<close>

lemma score_at_interp:
  assumes srt: "sorted xs" and lo: "1 \<le> pos" and hi: "pos < real (length xs)"
  shows "real_of_int (xs ! (nat \<lfloor>pos\<rfloor> - 1)) \<le> score_at xs pos
       \<and> score_at xs pos \<le> real_of_int (xs ! nat \<lfloor>pos\<rfloor>)
       \<and> 1 \<le> nat \<lfloor>pos\<rfloor> \<and> nat \<lfloor>pos\<rfloor> < length xs"
proof -
  let ?k = "nat \<lfloor>pos\<rfloor>"
  have fl: "1 \<le> \<lfloor>pos\<rfloor>" using lo by linarith
  then have k1: "1 \<le> ?k" by linarith
  have rk: "real ?k = of_int \<lfloor>pos\<rfloor>" using fl by simp
  have "of_int \<lfloor>pos\<rfloor> \<le> pos" by simp
  with hi rk have "real ?k < real (length xs)" by linarith
  then have kn: "?k < length xs" by simp
  have frac: "0 \<le> pos - real ?k" "pos - real ?k < 1"
    using rk by linarith+
  have le: "xs ! (?k - 1) \<le> xs ! ?k"
    using srt kn by (intro sorted_nth_mono) simp_all
  then have d: "0 \<le> real_of_int (xs ! ?k) - real_of_int (xs ! (?k - 1))" by simp
  have val: "score_at xs pos
      = real_of_int (xs ! (?k - 1))
        + (pos - real ?k) * (real_of_int (xs ! ?k) - real_of_int (xs ! (?k - 1)))"
    using lo hi by (simp add: score_at_def Let_def)
  have a: "0 \<le> (pos - real ?k) * (real_of_int (xs ! ?k) - real_of_int (xs ! (?k - 1)))"
    using frac(1) d by (rule mult_nonneg_nonneg)
  have b: "(pos - real ?k) * (real_of_int (xs ! ?k) - real_of_int (xs ! (?k - 1)))
         \<le> 1 * (real_of_int (xs ! ?k) - real_of_int (xs ! (?k - 1)))"
    using frac(2) d by (intro mult_right_mono) simp_all
  from val a b k1 kn show ?thesis by simp
qed

lemma score_at_bounds:
  assumes srt: "sorted xs" and ne: "xs \<noteq> []"
  shows "real_of_int (xs ! 0) \<le> score_at xs pos
       \<and> score_at xs pos \<le> real_of_int (xs ! (length xs - 1))"
proof -
  have n: "0 < length xs" using ne by simp
  have ends: "xs ! 0 \<le> xs ! (length xs - 1)"
    using srt n by (intro sorted_nth_mono) simp_all
  consider "pos < 1" | "1 \<le> pos" "real (length xs) \<le> pos" | "1 \<le> pos" "pos < real (length xs)"
    by linarith
  then show ?thesis
  proof cases
    case 1
    then show ?thesis using ends by (simp add: score_at_def Let_def)
  next
    case 2
    then show ?thesis using ends by (simp add: score_at_def Let_def)
  next
    case 3
    from score_at_interp [OF srt 3]
    have l: "real_of_int (xs ! (nat \<lfloor>pos\<rfloor> - 1)) \<le> score_at xs pos"
      and u: "score_at xs pos \<le> real_of_int (xs ! nat \<lfloor>pos\<rfloor>)"
      and k: "1 \<le> nat \<lfloor>pos\<rfloor>" "nat \<lfloor>pos\<rfloor> < length xs" by simp_all
    have "xs ! 0 \<le> xs ! (nat \<lfloor>pos\<rfloor> - 1)"
      using srt k by (intro sorted_nth_mono) simp_all
    then have a: "real_of_int (xs ! 0) \<le> real_of_int (xs ! (nat \<lfloor>pos\<rfloor> - 1))" by simp
    have "xs ! nat \<lfloor>pos\<rfloor> \<le> xs ! (length xs - 1)"
      using srt k by (intro sorted_nth_mono) simp_all
    then have b: "real_of_int (xs ! nat \<lfloor>pos\<rfloor>) \<le> real_of_int (xs ! (length xs - 1))" by simp
    from a b l u show ?thesis by linarith
  qed
qed

lemma score_at_mono:
  assumes srt: "sorted xs" and ne: "xs \<noteq> []" and le: "pos1 \<le> pos2"
  shows "score_at xs pos1 \<le> score_at xs pos2"
proof -
  let ?n = "length xs"
  consider "pos1 < 1" | "real ?n \<le> pos2" "1 \<le> pos1"
    | "1 \<le> pos1" "pos2 < real ?n"
    by linarith
  then show ?thesis
  proof cases
    case 1
    then have "score_at xs pos1 = real_of_int (xs ! 0)" by (simp add: score_at_def)
    with score_at_bounds [OF srt ne, of pos2] show ?thesis by simp
  next
    case 2
    then have "1 \<le> pos2" using le by linarith
    with 2 have "score_at xs pos2 = real_of_int (xs ! (?n - 1))" by (simp add: score_at_def Let_def)
    with score_at_bounds [OF srt ne, of pos1] show ?thesis by simp
  next
    case 3
    have p1: "pos1 < real ?n" and p2: "1 \<le> pos2" using 3 le by linarith+
    let ?k1 = "nat \<lfloor>pos1\<rfloor>" and ?k2 = "nat \<lfloor>pos2\<rfloor>"
    from score_at_interp [OF srt 3(1) p1]
    have u1: "score_at xs pos1 \<le> real_of_int (xs ! ?k1)" and k1: "1 \<le> ?k1" "?k1 < ?n" by simp_all
    from score_at_interp [OF srt p2 3(2)]
    have l2: "real_of_int (xs ! (?k2 - 1)) \<le> score_at xs pos2" and k2: "1 \<le> ?k2" "?k2 < ?n" by simp_all
    have k12: "?k1 \<le> ?k2" using le by (intro nat_mono floor_mono)
    show ?thesis
    proof (cases "?k1 = ?k2")
      case True
      have v1: "score_at xs pos1
        = real_of_int (xs ! (?k1 - 1))
          + (pos1 - real ?k1) * (real_of_int (xs ! ?k1) - real_of_int (xs ! (?k1 - 1)))"
        using 3(1) p1 by (simp add: score_at_def Let_def)
      have v2: "score_at xs pos2
        = real_of_int (xs ! (?k1 - 1))
          + (pos2 - real ?k1) * (real_of_int (xs ! ?k1) - real_of_int (xs ! (?k1 - 1)))"
        using p2 3(2) True by (simp add: score_at_def Let_def)
      have "xs ! (?k1 - 1) \<le> xs ! ?k1"
        using srt k1 by (intro sorted_nth_mono) simp_all
      then have d: "0 \<le> real_of_int (xs ! ?k1) - real_of_int (xs ! (?k1 - 1))" by simp
      have "(pos1 - real ?k1) * (real_of_int (xs ! ?k1) - real_of_int (xs ! (?k1 - 1)))
          \<le> (pos2 - real ?k1) * (real_of_int (xs ! ?k1) - real_of_int (xs ! (?k1 - 1)))"
        using le d by (intro mult_right_mono) simp_all
      with v1 v2 show ?thesis by simp
    next
      case False
      with k12 have "?k1 \<le> ?k2 - 1" by simp
      then have "xs ! ?k1 \<le> xs ! (?k2 - 1)"
        using srt k2 by (intro sorted_nth_mono) simp_all
      then have "real_of_int (xs ! ?k1) \<le> real_of_int (xs ! (?k2 - 1))" by simp
      with u1 l2 show ?thesis by linarith
    qed
  qed
qed

lemma Percentile_mono:
  assumes "p \<le> q"
  shows "Percentile_of_samples p vs \<le> Percentile_of_samples q vs"
proof (cases "vs = []")
  case True
  then show ?thesis by (simp add: Percentile_of_samples_def)
next
  case False
  let ?xs = "sort (map sint vs)"
  have ne: "?xs \<noteq> []" using False by (metis length_sort length_map length_0_conv)
  have "p * real (length ?xs + 1) \<le> q * real (length ?xs + 1)"
    using assms by (intro mult_right_mono) simp_all
  from score_at_mono [OF sorted_sort ne this] False show ?thesis
    by (simp add: Percentile_of_samples_def Let_def)
qed


lemma latency_lookup:
  "fmlookup (json_latency (HttpMetric_MarshalJSON lib x)) ''50'' = Some (Percentile lib 0.5 (Latency x))"
  "fmlookup (json_latency (HttpMetric_MarshalJSON lib x)) ''75'' = Some (Percentile lib 0.75 (Latency x))"
  "fmlookup (json_latency (HttpMetric_MarshalJSON lib x)) ''99'' = Some (Percentile lib 0.99 (Latency x))"
  by (simp_all add: HttpMetric_MarshalJSON_def Percentiles_def Let_def)

text \<open>
  Claim C7. The latency map of a marshalled cell has exactly the keys \<open>50\<close>, \<open>75\<close> and
  \<open>99\<close>, whatever the histogram. With the percentile query of the spec, the three
  values are in order, \<open>p50 \<le> p75 \<le> p99\<close>, and all three are zero for an empty reservoir.
\<close>

theorem latency_percentiles:
  fixes lib :: "('m, 'h) go_metrics" and x :: "('m, 'h) HttpMetric"
    and lib' :: "('n, int64 list) go_metrics" and y :: "('n, int64 list) HttpMetric"
  shows "fmdom (json_latency (HttpMetric_MarshalJSON lib x)) = {|''50'', ''75'', ''99''|}
    \<and> (Percentile lib' = Percentile_of_samples \<longrightarrow>
         (\<exists>p50 p75 p99.
            fmlookup (json_latency (HttpMetric_MarshalJSON lib' y)) ''50'' = Some p50
          \<and> fmlookup (json_latency (HttpMetric_MarshalJSON lib' y)) ''75'' = Some p75
          \<and> fmlookup (json_latency (HttpMetric_MarshalJSON lib' y)) ''99'' = Some p99
          \<and> p50 \<le> p75 \<and> p75 \<le> p99
          \<and> (Latency y = [] \<longrightarrow> p50 = 0 \<and> p75 = 0 \<and> p99 = 0)))"
proof (intro conjI impI)
  show "fmdom (json_latency (HttpMetric_MarshalJSON lib x)) = {|''50'', ''75'', ''99''|}"
    by (auto simp: HttpMetric_MarshalJSON_def Let_def)
next
  assume P: "Percentile lib' = Percentile_of_samples"
  have m1: "Percentile_of_samples 0.5 (Latency y) \<le> Percentile_of_samples 0.75 (Latency y)"
    by (rule Percentile_mono) simp
  have m2: "Percentile_of_samples 0.75 (Latency y) \<le> Percentile_of_samples 0.99 (Latency y)"
    by (rule Percentile_mono) simp
  have z: "Latency y = [] \<longrightarrow> Percentile_of_samples 0.5 (Latency y) = 0
      \<and> Percentile_of_samples 0.75 (Latency y) = 0 \<and> Percentile_of_samples 0.99 (Latency y) = 0"
    by (simp add: Percentile_of_samples_def)
  show "\<exists>p50 p75 p99.
            fmlookup (json_latency (HttpMetric_MarshalJSON lib' y)) ''50'' = Some p50
          \<and> fmlookup (json_latency (HttpMetric_MarshalJSON lib' y)) ''75'' = Some p75
          \<and> fmlookup (json_latency (HttpMetric_MarshalJSON lib' y)) ''99'' = Some p99
          \<and> p50 \<le> p75 \<and> p75 \<le> p99
          \<and> (Latency y = [] \<longrightarrow> p50 = 0 \<and> p75 = 0 \<and> p99 = 0)"
    unfolding latency_lookup P using m1 m2 z by blast
qed

theorem latency_percentiles_witness:
  "Percentile example_metrics = Percentile_of_samples
   \<and> fmdom (json_latency (HttpMetric_MarshalJSON example_metrics
        ((NewHttpMetric_literal example_metrics)\<lparr>Latency := [300, 100, 200]\<rparr>)))
       = {|''50'', ''75'', ''99''|}
   \<and> fmlookup (json_latency (HttpMetric_MarshalJSON example_metrics
        ((NewHttpMetric_literal example_metrics)\<lparr>Latency := [300, 100, 200]\<rparr>))) ''50'' = Some 200
   \<and> fmlookup (json_latency (HttpMetric_MarshalJSON example_metrics
        ((NewHttpMetric_literal example_metrics)\<lparr>Latency := [300, 100, 200]\<rparr>))) ''75'' = Some 300
   \<and> fmlookup (json_latency (HttpMetric_MarshalJSON example_metrics
        ((NewHttpMetric_literal example_metrics)\<lparr>Latency := [300, 100, 200]\<rparr>))) ''99'' = Some 300
   \<and> (200 :: real) \<le> 300
   \<and> fmlookup (json_latency (HttpMetric_MarshalJSON example_metrics
        (NewHttpMetric_literal example_metrics))) ''99'' = Some 0"
proof -
  let ?y = "(NewHttpMetric_literal example_metrics)\<lparr>Latency := [300, 100, 200]\<rparr>"
  have P: "Percentile example_metrics = Percentile_of_samples"
    by (simp add: example_metrics_def)
  have srt: "sort (map sint [300, 100, 200 :: int64]) = [100, 200, 300]" by simp
  have v: "Percentile_of_samples 0.5 [300, 100, 200] = 200"
    "Percentile_of_samples 0.75 [300, 100, 200] = 300"
    "Percentile_of_samples 0.99 [300, 100, 200] = 300"
    "Percentile_of_samples 0.99 [] = 0"
    by (simp_all add: Percentile_of_samples_def score_at_def Let_def)
  from latency_percentiles [of example_metrics ?y example_metrics ?y] P v
  show ?thesis
    by (simp add: latency_lookup NewHttpMetric_literal_def example_metrics_def)
qed

end
